theory Spec2Isabelle
  imports Complex_Main "HOL-Library.Sublist"
begin

section \<open>GlueBot: the reply-resolution pipeline of \<^verbatim>\<open>main.py\<close>\<close>

text \<open>
  The development embeds the functions of \<^verbatim>\<open>src/main.py\<close> one by one and keeps their
  names. Conventions of the embedding:

  \<^item> Python \<^verbatim>\<open>str\<close> is \<^typ>\<open>string\<close>. The case mapping, the whitespace test and the
    token characters below are those of Python on ASCII text; a character outside ASCII
    is left alone by \<open>lower\<close> and is neither whitespace nor a token character. On
    ASCII messages and ASCII knowledge files the definitions compute what Python computes.
  \<^item> \<^verbatim>\<open>None\<close> results are \<^typ>\<open>'a option\<close>; an exception that leaves a function is the
    \<open>Inl\<close> of a sum.
  \<^item> The ratios \<^verbatim>\<open>len(a & b) / len(b)\<close> are Python floats; they are kept as exact
    quotients in \<^typ>\<open>real\<close>. For two token counts below \<open>2^26\<close> the float quotient
    compares with \<^verbatim>\<open>0.6\<close>, with \<^verbatim>\<open>0\<close> and with another such quotient exactly as the
    exact quotient does.
\<close>

subsection \<open>Python string operations\<close>

definition ascii_uppercase :: string where
  "ascii_uppercase = ''ABCDEFGHIJKLMNOPQRSTUVWXYZ''"

definition ascii_lowercase :: string where
  "ascii_lowercase = ''abcdefghijklmnopqrstuvwxyz''"

definition digits :: string where
  "digits = ''0123456789''"

text \<open>\<^verbatim>\<open>str.lower()\<close>.\<close>

definition lower_char :: "char \<Rightarrow> char" where
  "lower_char c =
     (case map_of (zip ascii_uppercase ascii_lowercase) c of Some l \<Rightarrow> l | None \<Rightarrow> c)"

definition lower :: "string \<Rightarrow> string" where
  "lower s = map lower_char s"

text \<open>\<^verbatim>\<open>str.strip()\<close>: the ASCII characters for which \<^verbatim>\<open>str.isspace\<close> holds are tab,
  line feed, vertical tab, form feed, carriage return, the four separators
  \<^verbatim>\<open>0x1c\<close> to \<^verbatim>\<open>0x1f\<close> and the space.\<close>

definition whitespace :: string where
  "whitespace = [CHR 0x09, CHR 0x0A, CHR 0x0B, CHR 0x0C, CHR 0x0D,
                 CHR 0x1C, CHR 0x1D, CHR 0x1E, CHR 0x1F, CHR 0x20]"

definition is_space :: "char \<Rightarrow> bool" where
  "is_space c = (c \<in> set whitespace)"

definition strip :: "string \<Rightarrow> string" where
  "strip s = rev (dropWhile is_space (rev (dropWhile is_space s)))"

text \<open>\<^verbatim>\<open>needle in haystack\<close> on strings.\<close>

fun in_str :: "string \<Rightarrow> string \<Rightarrow> bool" where
  "in_str needle [] = (needle = [])"
| "in_str needle (c # cs) = (prefix needle (c # cs) \<or> in_str needle cs)"

text \<open>\<^verbatim>\<open>sep.join(parts)\<close>.\<close>

fun join :: "string \<Rightarrow> string list \<Rightarrow> string" where
  "join sep [] = []"
| "join sep [p] = p"
| "join sep (p # q # ps) = p @ sep @ join sep (q # ps)"

text \<open>\<^verbatim>\<open>re.findall(r"[a-z0-9]+", s)\<close>: the maximal runs of lowercase letters and digits,
  from left to right. \<open>runs\<close> carries the run read so far.\<close>

definition is_token_char :: "char \<Rightarrow> bool" where
  "is_token_char c = (c \<in> set (ascii_lowercase @ digits))"

fun runs :: "string \<Rightarrow> string \<Rightarrow> string list" where
  "runs acc [] = (if acc = [] then [] else [acc])"
| "runs acc (c # cs) =
     (if is_token_char c then runs (acc @ [c]) cs
      else (if acc = [] then [] else [acc]) @ runs [] cs)"

definition findall :: "string \<Rightarrow> string list" where
  "findall s = runs [] s"

text \<open>\<^verbatim>\<open>set(re.findall(r"[a-z0-9]+", s))\<close>.\<close>

definition tokens :: "string \<Rightarrow> string set" where
  "tokens s = set (findall s)"

text \<open>The truth value Python gives an optional string in \<^verbatim>\<open>if x:\<close>.\<close>

definition truthy :: "string option \<Rightarrow> bool" where
  "truthy r = (case r of None \<Rightarrow> False | Some s \<Rightarrow> s \<noteq> [])"

subsection \<open>Intent classifier\<close>

definition please_type :: string where
  "please_type = ''Please type a message so I can help.''"

definition greetings :: "string set" where
  "greetings = {''hi'', ''hello'', ''hey'', ''yo'', ''good morning'', ''good afternoon'',
                ''good evening''}"

definition thanks :: "string set" where
  "thanks = {''thanks'', ''thank you'', ''thx''}"

definition greeting_reply :: string where
  "greeting_reply =
     ''Hi, I can help with Kubernetes and OpenStack operations. '' @
     ''Try: `pod stuck in termination`, `CrashLoopBackOff`, or '' @
     ''`delete all available openstack volumes`.''"

definition help_reply :: string where
  "help_reply =
     ''I can troubleshoot Kubernetes and OpenStack issues, and generate safe scripts. '' @
     ''Include exact errors and I will provide step-by-step commands.''"

definition smalltalk_reply :: "string \<Rightarrow> string option" where
  "smalltalk_reply message =
     (let text = lower (strip message) in
      if text = [] then Some please_type
      else if text \<in> greetings then Some greeting_reply
      else if text \<in> thanks then Some ''You are welcome. Share the next issue when ready.''
      else if text \<in> {''help'', ''what can you do'', ''what can you help with''}
        then Some help_reply
      else None)"

subsection \<open>Incident detection and the script template\<close>

definition incident_keywords :: "string set" where
  "incident_keywords =
     {''pod'', ''kubernetes'', ''k8s'', ''probe'', ''liveness'', ''readiness'',
      ''crashloopbackoff'', ''imagepullbackoff'', ''error'', ''failed'', ''timeout'',
      ''terminating'', ''restart'', ''openstack'', ''nova'', ''neutron'', ''cinder'',
      ''glance'', ''keystone'', ''volume'', ''instance'', ''server''}"

definition is_incident_like :: "string \<Rightarrow> bool" where
  "is_incident_like message = (tokens (lower message) \<inter> incident_keywords \<noteq> {})"

definition script_header :: string where
  "script_header = ''#!/usr/bin/env bash''"

definition script_intro :: string where
  "script_intro =
     ''Use this safe script (dry-run by default) to delete all OpenStack volumes in `available` state:\<newline>\<newline>'' @
     ''```bash\<newline>''"

definition script_body :: string where
  "script_body =
     ''\<newline>'' @
     ''set -euo pipefail\<newline>\<newline>'' @
     ''# Usage:\<newline>'' @
     ''#   ./delete_available_volumes.sh            # dry-run\<newline>'' @
     ''#   DRY_RUN=false ./delete_available_volumes.sh\<newline>\<newline>'' @
     ''DRY_RUN=${DRY_RUN:-true}\<newline>\<newline>'' @
     ''mapfile -t volumes < <(openstack volume list -f value -c ID -c Status | awk '$2==\"available\" {print $1}')\<newline>\<newline>'' @
     ''if [ ${#volumes[@]} -eq 0 ]; then\<newline>'' @
     ''  echo \"No available volumes found.\"\<newline>'' @
     ''  exit 0\<newline>'' @
     ''fi\<newline>\<newline>'' @
     ''echo \"Found ${#volumes[@]} available volumes\"\<newline>'' @
     ''for vol in \"${volumes[@]}\"; do\<newline>'' @
     ''  if [ \"$DRY_RUN\" = \"true\" ]; then\<newline>'' @
     ''    echo \"[DRY-RUN] openstack volume delete $vol\"\<newline>'' @
     ''  else\<newline>'' @
     ''    echo \"Deleting volume: $vol\"\<newline>'' @
     ''    openstack volume delete \"$vol\"\<newline>'' @
     ''  fi\<newline>'' @
     ''done\<newline>'' @
     ''```\<newline>\<newline>'' @
     ''Before deleting, confirm tenant/project scope and snapshots/backups.''"

text \<open>The reply of the template, cut at the script's first line: the source's literal is
  \<open>script_intro\<close>, then the line \<^verbatim>\<open>#!/usr/bin/env bash\<close>, then \<open>script_body\<close>.\<close>

definition script_reply :: string where
  "script_reply = script_intro @ script_header @ script_body"

definition openstack_script_reply :: "string \<Rightarrow> string option" where
  "openstack_script_reply message =
     (let text = lower message in
      if in_str ''openstack'' text \<and> in_str ''volume'' text
         \<and> (in_str ''delete'' text \<or> in_str ''remove'' text)
         \<and> in_str ''available'' text
      then Some script_reply else None)"

subsection \<open>JSON values and \<^verbatim>\<open>str()\<close>\<close>

text \<open>
  What \<^verbatim>\<open>json.loads\<close> returns: \<^verbatim>\<open>None\<close>, a bool, an int, a float, a string, a list or
  a dict with string keys. A dict is the list of its items in insertion order (the keys
  of a Python dict are distinct). A float is carried as the text \<^verbatim>\<open>repr\<close> gives it,
  which is all the program ever asks of one.
\<close>

datatype json =
    JNull
  | JBool bool
  | JInt int
  | JFloat string
  | JStr string
  | JArr "json list"
  | JObj "(string \<times> json) list"

type_synonym pydict = "(string \<times> json) list"

text \<open>\<^verbatim>\<open>d.get(key, dflt)\<close>.\<close>

definition dict_get :: "pydict \<Rightarrow> string \<Rightarrow> json \<Rightarrow> json" where
  "dict_get d key dflt = (case map_of d key of Some v \<Rightarrow> v | None \<Rightarrow> dflt)"

text \<open>\<^verbatim>\<open>str(v)\<close>: a string is itself, any other value is its \<^verbatim>\<open>repr\<close>. The \<^verbatim>\<open>repr\<close> of a
  string takes single quotes unless the string has a single quote and no double quote,
  and escapes the quote, the backslash and the control characters.\<close>

definition hex_digits :: string where
  "hex_digits = ''0123456789abcdef''"

definition backslash :: char where
  "backslash = CHR 0x5C"

definition repr_char :: "char \<Rightarrow> char \<Rightarrow> string" where
  "repr_char quote c =
     (if c = quote \<or> c = backslash then [backslash, c]
      else if c = CHR 0x09 then [backslash, CHR ''t'']
      else if c = CHR 0x0A then [backslash, CHR ''n'']
      else if c = CHR 0x0D then [backslash, CHR ''r'']
      else if (of_char c :: nat) < 32 \<or> (of_char c :: nat) = 127
        then [backslash, CHR ''x'', hex_digits ! (of_char c div 16),
              hex_digits ! (of_char c mod 16)]
      else [c])"

definition repr_str :: "string \<Rightarrow> string" where
  "repr_str s =
     (let quote = (if CHR 0x27 \<in> set s \<and> CHR 0x22 \<notin> set s then CHR 0x22 else CHR 0x27)
      in [quote] @ concat (map (repr_char quote) s) @ [quote])"

fun str_nat :: "nat \<Rightarrow> string" where
  "str_nat n = (if n < 10 then [digits ! n] else str_nat (n div 10) @ [digits ! (n mod 10)])"

declare str_nat.simps [simp del]

definition str_int :: "int \<Rightarrow> string" where
  "str_int i = (if i < 0 then ''-'' @ str_nat (nat (- i)) else str_nat (nat i))"

primrec py_repr :: "json \<Rightarrow> string" where
  "py_repr JNull = ''None''"
| "py_repr (JBool b) = (if b then ''True'' else ''False'')"
| "py_repr (JInt i) = str_int i"
| "py_repr (JFloat r) = r"
| "py_repr (JStr s) = repr_str s"
| "py_repr (JArr xs) = ''['' @ join '', '' (map py_repr xs) @ '']''"
| "py_repr (JObj kvs) =
     ''{'' @ join '', '' (map (\<lambda>(k, r). repr_str k @ '': '' @ r)
                          (map (map_prod id py_repr) kvs)) @ ''}''"

definition py_str :: "json \<Rightarrow> string" where
  "py_str v = (case v of JStr s \<Rightarrow> s | _ \<Rightarrow> py_repr v)"

text \<open>The two reads every function of the source makes of a record:
  \<^verbatim>\<open>str(item.get("question", item.get("q", "")))\<close> and the same for the answer.\<close>

definition question_of :: "pydict \<Rightarrow> string" where
  "question_of item = py_str (dict_get item ''question'' (dict_get item ''q'' (JStr [])))"

definition answer_of :: "pydict \<Rightarrow> string" where
  "answer_of item = py_str (dict_get item ''answer'' (dict_get item ''a'' (JStr [])))"

subsection \<open>The knowledge file\<close>

text \<open>
  The state of \<^verbatim>\<open>knowledge.json\<close>, by what the library calls of \<^verbatim>\<open>_load_knowledge\<close> make
  of it: the file does not exist; it has size 0; its bytes are not UTF-8, so that
  \<^verbatim>\<open>read_text(encoding="utf-8")\<close> raises \<^verbatim>\<open>UnicodeDecodeError\<close>; its text is not JSON, so that
  \<^verbatim>\<open>json.loads\<close> raises \<^verbatim>\<open>JSONDecodeError\<close>; or its text is the JSON of a value. In the
  last case \<^verbatim>\<open>json.loads\<close> returns the value, unless an integer of the text has more digits
  than \<^verbatim>\<open>sys.int_max_str_digits\<close> allows, 4300 by default: then the \<^verbatim>\<open>int\<close> conversion of
  the parser raises a plain \<^verbatim>\<open>ValueError\<close>, which is no \<^verbatim>\<open>JSONDecodeError\<close>.
  \<^verbatim>\<open>json.dumps\<close> and \<^verbatim>\<open>json.loads\<close> are Python's library, not this program: that
  \<^verbatim>\<open>json.loads(json.dumps(v, indent=2))\<close> is \<^verbatim>\<open>v\<close> for a list of dicts that came from
  JSON is taken from the library, by letting the file hold the value. The operating
  system's read and write are taken to succeed, and the parser is taken not to run out
  of stack on the nesting of the text.
\<close>

datatype kfile = NoFile | EmptyFile | NotUtf8 | NotJson | JsonDoc json

datatype error =
  UnicodeDecodeError | ValueError | AttributeError | IndexError | KeyError | TypeError

text \<open>The integers \<^verbatim>\<open>json.loads\<close> accepts, by the number of digits of their decimal text
  (the sign is not counted), and the values all of whose integers it accepts.\<close>

definition int_max_str_digits :: nat where
  "int_max_str_digits = 4300"

definition int_literal_ok :: "int \<Rightarrow> bool" where
  "int_literal_ok i = (length (str_nat (nat \<bar>i\<bar>)) \<le> int_max_str_digits)"

primrec json_loads_ok :: "json \<Rightarrow> bool" where
  "json_loads_ok JNull = True"
| "json_loads_ok (JBool b) = True"
| "json_loads_ok (JInt i) = int_literal_ok i"
| "json_loads_ok (JFloat r) = True"
| "json_loads_ok (JStr s) = True"
| "json_loads_ok (JArr xs) = list_all (\<lambda>ok. ok) (map json_loads_ok xs)"
| "json_loads_ok (JObj kvs) =
     list_all (\<lambda>ok. ok) (map snd (map (map_prod id json_loads_ok) kvs))"

text \<open>\<^verbatim>\<open>[item for item in data if isinstance(item, dict)]\<close>.\<close>

definition dict_items :: "json list \<Rightarrow> pydict list" where
  "dict_items data = List.map_filter (\<lambda>item. case item of JObj d \<Rightarrow> Some d | _ \<Rightarrow> None) data"

definition load_knowledge :: "kfile \<Rightarrow> error + pydict list" where
  "load_knowledge file =
     (case file of
        NoFile \<Rightarrow> Inr []
      | EmptyFile \<Rightarrow> Inr []
      | NotUtf8 \<Rightarrow> Inl UnicodeDecodeError
      | NotJson \<Rightarrow> Inr []
      | JsonDoc data \<Rightarrow>
          if \<not> json_loads_ok data then Inl ValueError
          else
            (case data of
               JArr items \<Rightarrow> Inr (dict_items items)
             | JObj d \<Rightarrow> Inr [d]
             | _ \<Rightarrow> Inr []))"

definition save_knowledge :: "pydict list \<Rightarrow> kfile" where
  "save_knowledge knowledge = JsonDoc (JArr (map JObj knowledge))"

subsection \<open>Knowledge lookup\<close>

text \<open>The loop of \<^verbatim>\<open>_find_reply\<close> over the records, for the normalized message \<open>text\<close>.\<close>

fun find_loop :: "string \<Rightarrow> pydict list \<Rightarrow> string option" where
  "find_loop text [] = None"
| "find_loop text (item # rest) =
     (let question = lower (strip (question_of item));
          answer = strip (answer_of item)
      in if \<not> (question \<noteq> [] \<and> answer \<noteq> []) then find_loop text rest
         else if in_str question text \<or> in_str text question then Some answer
         else if tokens question = {} then find_loop text rest
         else if real (card (tokens text \<inter> tokens question)) / real (card (tokens question))
                 \<ge> 0.6
           then Some answer
         else find_loop text rest)"

definition find_reply :: "string \<Rightarrow> pydict list \<Rightarrow> string option" where
  "find_reply message knowledge =
     (let text = lower (strip message) in
      if text = [] then Some please_type else find_loop text knowledge)"

subsection \<open>Incident tracker\<close>

definition unresolved_record :: "string \<Rightarrow> pydict" where
  "unresolved_record question =
     [(''question'', JStr question),
      (''answer'', JStr []),
      (''status'', JStr ''unresolved''),
      (''note'', JStr ''Captured from unknown user issue. Fill answer later.'')]"

text \<open>\<^verbatim>\<open>_track_unknown_issue\<close> appends to the list it is given and writes the file; the
  embedding returns the list and the file as they are afterwards.\<close>

definition track_unknown_issue :: "string \<Rightarrow> pydict list \<Rightarrow> kfile \<Rightarrow> pydict list \<times> kfile" where
  "track_unknown_issue message knowledge file =
     (let question = strip message in
      if question = [] then (knowledge, file)
      else
        let existing_questions = set (map (\<lambda>item. lower (strip (question_of item))) knowledge)
        in if lower question \<in> existing_questions then (knowledge, file)
           else
             let knowledge' = knowledge @ [unresolved_record question]
             in (knowledge', save_knowledge knowledge'))"

subsection \<open>Related topics and the fallback responder\<close>

text \<open>The loop of \<^verbatim>\<open>_related_topics\<close> that fills \<^verbatim>\<open>scored\<close>.\<close>

fun scored_loop :: "string set \<Rightarrow> pydict list \<Rightarrow> (real \<times> string) list" where
  "scored_loop msg_tokens [] = []"
| "scored_loop msg_tokens (item # rest) =
     (let question = strip (question_of item);
          answer = strip (answer_of item)
      in if question = [] then scored_loop msg_tokens rest
         else if answer = [] then scored_loop msg_tokens rest
         else if tokens (lower question) = {} then scored_loop msg_tokens rest
         else
           let score = real (card (msg_tokens \<inter> tokens (lower question)))
                         / real (card (tokens (lower question)))
           in if score > 0 then (score, question) # scored_loop msg_tokens rest
              else scored_loop msg_tokens rest)"

text \<open>\<^verbatim>\<open>scored.sort(key=lambda x: x[0], reverse=True)\<close>: Python sorts a list in reverse by
  reversing it, sorting it with its stable ascending sort and reversing the result.\<close>

definition sort_reverse :: "(real \<times> string) list \<Rightarrow> (real \<times> string) list" where
  "sort_reverse scored = rev (sort_key fst (rev scored))"

definition related_topics :: "string \<Rightarrow> pydict list \<Rightarrow> nat \<Rightarrow> string list" where
  "related_topics message knowledge limit =
     (let msg_tokens = tokens (lower message);
          scored = scored_loop msg_tokens knowledge
      in map snd (take limit (sort_reverse scored)))"

definition related_text :: "string \<Rightarrow> pydict list \<Rightarrow> string" where
  "related_text message knowledge =
     (let related = related_topics message knowledge 3 in
      if related \<noteq> [] then ''\<newline>Related topics you can ask: '' @ join '', '' related
      else [])"

definition liveness_500_reply :: string where
  "liveness_500_reply =
     ''Try this checklist for liveness probe 500 errors:\<newline>'' @
     ''1) Confirm the probe path/port matches your app endpoint.\<newline>'' @
     ''2) Check app logs around probe failures (`kubectl logs <pod> -c <container>`).\<newline>'' @
     ''3) Increase `initialDelaySeconds` and `timeoutSeconds` if startup is slow.\<newline>'' @
     ''4) Verify dependencies (DB/cache/API) required by the health endpoint.\<newline>'' @
     ''5) Use `kubectl describe pod <pod>` to confirm probe failure events.''"

definition probe_reply :: string where
  "probe_reply =
     ''Probe issue detected. Verify probe path, port, and timing fields '' @
     ''(`initialDelaySeconds`, `timeoutSeconds`, `periodSeconds`, `failureThreshold`), '' @
     ''then inspect events with `kubectl describe pod <pod>` and container logs.''"

definition openstack_reply :: string where
  "openstack_reply =
     ''OpenStack issue detected. Start with: '' @
     ''`openstack token issue`, `openstack server list`, `openstack volume list`, '' @
     ''`openstack network agent list`, then check service logs and project quotas.''"

definition generic_reply :: string where
  "generic_reply =
     ''I do not have an exact match yet, but start with: '' @
     ''`kubectl describe pod <pod>`, `kubectl logs <pod> -c <container> --previous`, '' @
     ''and check recent events in the namespace.''"

definition fallback_reply :: "string \<Rightarrow> pydict list \<Rightarrow> string" where
  "fallback_reply message knowledge =
     (let text = lower message;
          related_text = related_text message knowledge
      in if in_str ''liveness'' text \<and> in_str ''500'' text
           then liveness_500_reply @ related_text
         else if in_str ''readiness'' text \<or> in_str ''liveness'' text \<or> in_str ''probe'' text
           then probe_reply @ related_text
         else if in_str ''openstack'' text \<or> in_str ''nova'' text \<or> in_str ''neutron'' text
                 \<or> in_str ''cinder'' text
           then openstack_reply @ related_text
         else generic_reply @ related_text)"

subsection \<open>LLM delegate\<close>

text \<open>
  The world outside the program: the environment variables as \<^verbatim>\<open>load_dotenv\<close> leaves them
  for this request, and the provider behind \<^verbatim>\<open>requests.post\<close>. An exchange either raises a
  \<^verbatim>\<open>RequestException\<close> (no connection, a timeout, a status that \<^verbatim>\<open>raise_for_status\<close>
  refuses, a body that \<^verbatim>\<open>response.json()\<close> cannot decode) or answers with a body that is the
  JSON of a value. \<^verbatim>\<open>response.json()\<close> parses with \<^verbatim>\<open>json.loads\<close> and turns only its
  \<^verbatim>\<open>JSONDecodeError\<close> into a \<^verbatim>\<open>RequestException\<close>, so an integer of too many digits in the
  body raises \<^verbatim>\<open>ValueError\<close> here as it does for the knowledge file.
\<close>

record http_request =
  url :: string
  headers :: "(string \<times> string) list"
  body :: json
  timeout :: nat

datatype http_result = RequestException | ResponseJson json

record world =
  environ :: "string \<Rightarrow> string option"
  post :: "http_request \<Rightarrow> http_result"

text \<open>\<^verbatim>\<open>os.getenv(name, dflt)\<close> and \<^verbatim>\<open>a or b\<close> on strings.\<close>

definition getenv :: "world \<Rightarrow> string \<Rightarrow> string \<Rightarrow> string" where
  "getenv w name dflt = (case environ w name of Some v \<Rightarrow> v | None \<Rightarrow> dflt)"

definition str_or :: "string \<Rightarrow> string \<Rightarrow> string" where
  "str_or a b = (if a \<noteq> [] then a else b)"

text \<open>The reads of the provider's answer. Each raises what Python raises on a value of
  the wrong type: \<^verbatim>\<open>v.get(...)\<close> needs a dict, \<^verbatim>\<open>v[0]\<close> a non-empty list or string,
  \<^verbatim>\<open>v.strip()\<close> a string.\<close>

definition py_get :: "json \<Rightarrow> string \<Rightarrow> json \<Rightarrow> error + json" where
  "py_get v key dflt = (case v of JObj d \<Rightarrow> Inr (dict_get d key dflt) | _ \<Rightarrow> Inl AttributeError)"

definition py_first :: "json \<Rightarrow> error + json" where
  "py_first v =
     (case v of
        JArr xs \<Rightarrow> (case xs of [] \<Rightarrow> Inl IndexError | x # _ \<Rightarrow> Inr x)
      | JStr s \<Rightarrow> (case s of [] \<Rightarrow> Inl IndexError | c # _ \<Rightarrow> Inr (JStr [c]))
      | JObj d \<Rightarrow> Inl KeyError
      | _ \<Rightarrow> Inl TypeError)"

definition py_strip :: "json \<Rightarrow> error + string" where
  "py_strip v = (case v of JStr s \<Rightarrow> Inr (strip s) | _ \<Rightarrow> Inl AttributeError)"

definition py_bool :: "json \<Rightarrow> bool" where
  "py_bool v =
     (case v of
        JNull \<Rightarrow> False
      | JBool b \<Rightarrow> b
      | JInt i \<Rightarrow> i \<noteq> 0
      | JFloat r \<Rightarrow> r \<noteq> ''0.0'' \<and> r \<noteq> ''-0.0''
      | JStr s \<Rightarrow> s \<noteq> []
      | JArr xs \<Rightarrow> xs \<noteq> []
      | JObj d \<Rightarrow> d \<noteq> [])"

definition or_none :: "string \<Rightarrow> string option" where
  "or_none s = (if s \<noteq> [] then Some s else None)"

fun bind_error :: "error + 'a \<Rightarrow> ('a \<Rightarrow> error + 'b) \<Rightarrow> error + 'b" where
  "bind_error (Inl e) f = Inl e"
| "bind_error (Inr x) f = f x"

text \<open>\<^verbatim>\<open>data.get("choices", [{}])[0].get("message", {}).get("content", "").strip() or None\<close>\<close>

definition choice_content :: "json \<Rightarrow> error + string option" where
  "choice_content data =
     bind_error (py_get data ''choices'' (JArr [JObj []])) (\<lambda>choices.
     bind_error (py_first choices) (\<lambda>choice.
     bind_error (py_get choice ''message'' (JObj [])) (\<lambda>msg.
     bind_error (py_get msg ''content'' (JStr [])) (\<lambda>content.
     bind_error (py_strip content) (\<lambda>text. Inr (or_none text))))))"

text \<open>\<^verbatim>\<open>text = (data.get("output_text") or "").strip(); return text or None\<close>\<close>

definition output_text :: "json \<Rightarrow> error + string option" where
  "output_text data =
     bind_error (py_get data ''output_text'' JNull) (\<lambda>out.
     bind_error (if py_bool out then py_strip out else Inr (strip [])) (\<lambda>text.
       Inr (or_none text)))"

text \<open>The loop of \<^verbatim>\<open>_llm_reply\<close> that fills \<^verbatim>\<open>topic_list\<close>.\<close>

fun topic_loop :: "pydict list \<Rightarrow> string list" where
  "topic_loop [] = []"
| "topic_loop (item # rest) =
     (let question = strip (question_of item);
          answer = strip (answer_of item)
      in if question \<noteq> [] \<and> answer \<noteq> []
         then (''- '' @ question @ '': '' @ answer) # topic_loop rest
         else topic_loop rest)"

definition kb_context :: "pydict list \<Rightarrow> string" where
  "kb_context knowledge =
     (let topic_list = topic_loop (take 30 knowledge) in
      if topic_list \<noteq> [] then join ''\<newline>'' topic_list
      else ''- No curated KB answers yet.'')"

definition llm_prompt :: "string \<Rightarrow> pydict list \<Rightarrow> string" where
  "llm_prompt message knowledge =
     ''You are GlueBot, a Kubernetes + OpenStack SRE assistant. '' @
     ''Provide concise, actionable troubleshooting steps. '' @
     ''For Kubernetes, include kubectl commands. For OpenStack, include openstack CLI commands. '' @
     ''If user asks for scripts/automation, return a safe script with dry-run default and a short warning.\<newline>\<newline>'' @
     ''Known KB:\<newline>'' @ kb_context knowledge @ ''\<newline>\<newline>'' @
     ''User issue: '' @ message"

definition system_content :: string where
  "system_content =
     ''You are GlueBot, a Kubernetes + OpenStack SRE assistant. '' @
     ''Give concise troubleshooting steps and safe automation scripts.''"

definition llm_reply :: "world \<Rightarrow> string \<Rightarrow> pydict list \<Rightarrow> error + string option" where
  "llm_reply w message knowledge =
     (let openai_api_key = strip (getenv w ''OPENAI_API_KEY'' []);
          openrouter_api_key = strip (getenv w ''OPENROUTER_API_KEY'' []);
          llm_api_key = str_or openai_api_key openrouter_api_key;
          llm_model = strip (getenv w ''OPENAI_MODEL'' ''gpt-4.1-mini'');
          llm_api_base = strip (getenv w ''LLM_API_BASE'' []);
          openrouter_site_url = strip (getenv w ''OPENROUTER_SITE_URL'' []);
          openrouter_app_name = strip (getenv w ''OPENROUTER_APP_NAME'' ''GlueBot'')
      in if llm_api_key = [] then Inr None
         else
           let prompt = llm_prompt message knowledge;
               base = lower llm_api_base;
               is_openrouter = (in_str ''openrouter'' base \<or> openrouter_api_key \<noteq> []);
               headers0 = [(''Authorization'', ''Bearer '' @ llm_api_key),
                           (''Content-Type'', ''application/json'')];
               headers1 =
                 (if is_openrouter
                  then (if openrouter_site_url \<noteq> []
                        then [(''HTTP-Referer'', openrouter_site_url)] else [])
                       @ (if openrouter_app_name \<noteq> []
                          then [(''X-Title'', openrouter_app_name)] else [])
                  else [])
           in if is_openrouter then
                (case post w
                   \<lparr>url = str_or llm_api_base ''https://openrouter.ai/api/v1/chat/completions'',
                    headers = headers0 @ headers1,
                    body = JObj [(''model'', JStr llm_model),
                                 (''messages'',
                                  JArr [JObj [(''role'', JStr ''system''),
                                              (''content'', JStr system_content)],
                                        JObj [(''role'', JStr ''user''),
                                              (''content'', JStr prompt)]])],
                    timeout = 20\<rparr>
                 of RequestException \<Rightarrow> Inr None
                  | ResponseJson data \<Rightarrow>
                      if json_loads_ok data then choice_content data else Inl ValueError)
              else
                (case post w
                   \<lparr>url = str_or llm_api_base ''https://api.openai.com/v1/responses'',
                    headers = headers0 @ headers1,
                    body = JObj [(''model'', JStr llm_model), (''input'', JStr prompt)],
                    timeout = 20\<rparr>
                 of RequestException \<Rightarrow> Inr None
                  | ResponseJson data \<Rightarrow>
                      if json_loads_ok data then output_text data else Inl ValueError))"

subsection \<open>The chat operation\<close>

record ChatResponse =
  reply :: string
  source :: string

text \<open>The stages of \<^verbatim>\<open>chat\<close> after the tracker: the LLM delegate, then the fallback
  responder under one of its two source labels.\<close>

definition answer_stage :: "world \<Rightarrow> string \<Rightarrow> pydict list \<Rightarrow> error + ChatResponse" where
  "answer_stage w message knowledge =
     (let openai_api_key = strip (getenv w ''OPENAI_API_KEY'' []);
          openrouter_api_key = strip (getenv w ''OPENROUTER_API_KEY'' []);
          llm_api_key = str_or openai_api_key openrouter_api_key;
          llm_model = strip (getenv w ''OPENAI_MODEL'' ''gpt-4.1-mini'')
      in case llm_reply w message knowledge of
           Inl e \<Rightarrow> Inl e
         | Inr llm \<Rightarrow>
             if truthy llm
               then Inr \<lparr>reply = the llm, source = ''llm:'' @ llm_model\<rparr>
             else if llm_api_key = []
               then Inr \<lparr>reply = fallback_reply message knowledge,
                         source = ''fallback:no_llm_api_key''\<rparr>
             else Inr \<lparr>reply = fallback_reply message knowledge,
                       source = ''fallback:llm_unavailable''\<rparr>)"

text \<open>\<^verbatim>\<open>chat\<close> takes the world and the knowledge file and gives its result, a response or
  the exception that leaves it, with the knowledge file as it is afterwards.\<close>

definition chat :: "world \<Rightarrow> kfile \<Rightarrow> string \<Rightarrow> (error + ChatResponse) \<times> kfile" where
  "chat w file message =
     (case load_knowledge file of
        Inl e \<Rightarrow> (Inl e, file)
      | Inr knowledge \<Rightarrow>
          let smalltalk = smalltalk_reply message in
          if truthy smalltalk
            then (Inr \<lparr>reply = the smalltalk, source = ''intent''\<rparr>, file)
          else
            let matched = find_reply message knowledge in
            if truthy matched
              then (Inr \<lparr>reply = the matched, source = ''knowledge.json''\<rparr>, file)
            else
              let scripted = openstack_script_reply message in
              if truthy scripted
                then (Inr \<lparr>reply = the scripted, source = ''template:openstack_script''\<rparr>,
                      file)
              else
                let (knowledge', file') =
                      (if is_incident_like message
                       then track_unknown_issue message knowledge file
                       else (knowledge, file))
                in (answer_stage w message knowledge', file'))"

subsection \<open>Notions the properties are stated with\<close>

text \<open>\<^verbatim>\<open>isinstance(item, dict)\<close>.\<close>

definition is_dict :: "json \<Rightarrow> bool" where
  "is_dict v = (case v of JObj d \<Rightarrow> True | _ \<Rightarrow> False)"

text \<open>The normalized question of a record, as \<^verbatim>\<open>_find_reply\<close> and \<^verbatim>\<open>_track_unknown_issue\<close>
  compute it: \<^verbatim>\<open>str(item.get("question", item.get("q", ""))).strip().lower()\<close>.\<close>

definition normalized_question :: "pydict \<Rightarrow> string" where
  "normalized_question item = lower (strip (question_of item))"

text \<open>A world with no environment variable set and no provider in reach.\<close>

definition quiet_world :: world where
  "quiet_world = \<lparr>environ = Map.empty, post = (\<lambda>request. RequestException)\<rparr>"

text \<open>The matching rule of the lookup in the words of the specification: a record with a
  non-empty normalized question and a non-empty answer matches the normalized message
  \<open>text\<close> when one contains the other, or when the question has tokens and at least
  six tenths of them are tokens of the message.\<close>

definition spec_matches :: "string \<Rightarrow> pydict \<Rightarrow> bool" where
  "spec_matches text item =
     (normalized_question item \<noteq> [] \<and> strip (answer_of item) \<noteq> [] \<and>
      (in_str (normalized_question item) text \<or> in_str text (normalized_question item) \<or>
       (tokens (normalized_question item) \<noteq> {} \<and>
        real (card (tokens text \<inter> tokens (normalized_question item)))
          / real (card (tokens (normalized_question item))) \<ge> 0.6)))"

text \<open>The specification's lookup: the trimmed answer of the first record of the store
  that matches.\<close>

definition spec_lookup :: "string \<Rightarrow> pydict list \<Rightarrow> string option" where
  "spec_lookup text knowledge =
     (case List.find (spec_matches text) knowledge of
        None \<Rightarrow> None
      | Some item \<Rightarrow> Some (strip (answer_of item)))"

text \<open>The score of a record against the tokens of a message, and the records the
  related-topics hint may list, in the words of the specification: a non-empty question,
  a non-empty answer and a score above zero.\<close>

definition spec_score :: "string set \<Rightarrow> pydict \<Rightarrow> real" where
  "spec_score msg_tokens item =
     real (card (msg_tokens \<inter> tokens (lower (strip (question_of item)))))
       / real (card (tokens (lower (strip (question_of item)))))"

definition spec_listed :: "string set \<Rightarrow> pydict \<Rightarrow> bool" where
  "spec_listed msg_tokens item =
     (strip (question_of item) \<noteq> [] \<and> strip (answer_of item) \<noteq> [] \<and>
      tokens (lower (strip (question_of item))) \<noteq> {} \<and> spec_score msg_tokens item > 0)"

text \<open>The body of the fallback reply by the first keyword group that the lowercased
  message \<open>text\<close> meets.\<close>

definition spec_group_reply :: "string \<Rightarrow> string" where
  "spec_group_reply text =
     (if in_str ''liveness'' text \<and> in_str ''500'' text then liveness_500_reply
      else if in_str ''readiness'' text \<or> in_str ''liveness'' text \<or> in_str ''probe'' text
        then probe_reply
      else if in_str ''openstack'' text \<or> in_str ''nova'' text \<or> in_str ''neutron'' text
              \<or> in_str ''cinder'' text
        then openstack_reply
      else generic_reply)"

text \<open>A run of tracker calls, one per message, on the list and the file.\<close>

fun track_all :: "string list \<Rightarrow> pydict list \<times> kfile \<Rightarrow> pydict list \<times> kfile" where
  "track_all [] state = state"
| "track_all (message # messages) state =
     track_all messages (track_unknown_issue message (fst state) (snd state))"

text \<open>The knowledge files that chat requests can make of a file.\<close>

inductive reachable :: "kfile \<Rightarrow> kfile \<Rightarrow> bool" for origin :: kfile where
  start: "reachable origin origin"
| request: "reachable origin current \<Longrightarrow> reachable origin (snd (chat w current message))"

section \<open>Properties\<close>

subsection \<open>Strings\<close>

lemma in_str_sublist: "in_str needle hay = sublist needle hay"
  by (induction hay) (auto simp: sublist_Cons_right)

lemma in_str_set: "in_str needle hay \<Longrightarrow> set needle \<subseteq> set hay"
  by (simp add: in_str_sublist set_mono_sublist)

lemma set_dropWhile_keep: "x \<in> set xs \<Longrightarrow> \<not> P x \<Longrightarrow> x \<in> set (dropWhile P xs)"
  by (induction xs) auto

lemma set_strip_keep: "c \<in> set s \<Longrightarrow> \<not> is_space c \<Longrightarrow> c \<in> set (strip s)"
  by (simp add: strip_def set_dropWhile_keep)

lemma dropWhile_all: "(\<forall>x\<in>set xs. P x) \<Longrightarrow> dropWhile P xs = []"
  by (induction xs) auto

lemma strip_Nil_iff: "strip s = [] \<longleftrightarrow> (\<forall>c\<in>set s. is_space c)"
proof
  assume "strip s = []"
  then show "\<forall>c\<in>set s. is_space c"
    using set_strip_keep by fastforce
next
  assume "\<forall>c\<in>set s. is_space c"
  then show "strip s = []"
    by (simp add: strip_def dropWhile_all)
qed

lemma strip_ends:
  assumes "strip s \<noteq> []"
  shows "\<not> is_space (hd (strip s))" and "\<not> is_space (last (strip s))"
proof -
  define u where "u = dropWhile is_space s"
  define v where "v = dropWhile is_space (rev u)"
  have t: "strip s = rev v"
    by (simp add: strip_def u_def v_def)
  from assms t have v: "v \<noteq> []" by simp
  then have "\<not> is_space (hd v)"
    unfolding v_def by (rule hd_dropWhile)
  then show "\<not> is_space (last (strip s))"
    using v by (simp add: t last_rev)
  have "rev u = takeWhile is_space (rev u) @ v"
    by (simp add: v_def)
  then have "u = rev v @ rev (takeWhile is_space (rev u))"
    by (metis rev_append rev_rev_ident)
  then have "hd u = hd (rev v)" and "u \<noteq> []"
    using v by (metis hd_append2 rev_is_Nil_conv, metis Nil_is_append_conv rev_is_Nil_conv)
  moreover have "\<not> is_space (hd u)"
    using \<open>u \<noteq> []\<close> unfolding u_def by (rule hd_dropWhile)
  ultimately show "\<not> is_space (hd (strip s))"
    by (simp add: t)
qed

lemma strip_strip: "strip (strip s) = strip s"
proof (cases "strip s = []")
  case True
  have "strip [] = []" by (simp add: strip_def)
  with True show ?thesis by simp
next
  case False
  from strip_ends [OF False] have h: "\<not> is_space (hd (strip s))"
    and l: "\<not> is_space (last (strip s))" by simp_all
  have "dropWhile is_space (strip s) = strip s"
    using h by (simp add: dropWhile_eq_self_iff)
  moreover have "dropWhile is_space (rev (strip s)) = rev (strip s)"
    using l False by (simp add: dropWhile_eq_self_iff hd_rev)
  ultimately show ?thesis
    by (simp add: strip_def [of "strip s"])
qed

lemma lower_Nil_iff: "lower s = [] \<longleftrightarrow> s = []"
  by (simp add: lower_def)

lemma is_space_cases:
  "is_space c \<longleftrightarrow> c = CHR 0x09 \<or> c = CHR 0x0A \<or> c = CHR 0x0B \<or> c = CHR 0x0C \<or> c = CHR 0x0D
     \<or> c = CHR 0x1C \<or> c = CHR 0x1D \<or> c = CHR 0x1E \<or> c = CHR 0x1F \<or> c = CHR 0x20"
  by (simp add: is_space_def whitespace_def)

lemma space_not_token: "is_space c \<Longrightarrow> \<not> is_token_char (lower_char c)"
  unfolding is_space_cases
  by (elim disjE; simp add: is_token_char_def lower_char_def
      ascii_uppercase_def ascii_lowercase_def digits_def)

lemma runs_no_token:
  "(\<forall>c\<in>set s. \<not> is_token_char c) \<Longrightarrow> runs acc s = (if acc = [] then [] else [acc])"
  by (induction s arbitrary: acc) auto

lemma tokens_blank: "strip s = [] \<Longrightarrow> tokens (lower s) = {}"
  by (simp add: tokens_def findall_def runs_no_token strip_Nil_iff lower_def space_not_token)

lemma incident_not_blank: "is_incident_like message \<Longrightarrow> strip message \<noteq> []"
  using tokens_blank by (auto simp: is_incident_like_def)

subsection \<open>Loading and saving the knowledge file\<close>

lemma dict_items_Nil: "dict_items [] = []"
  by (simp add: dict_items_def map_filter_simps)

lemma dict_items_Cons:
  "dict_items (v # vs) = (case v of JObj d \<Rightarrow> d # dict_items vs | _ \<Rightarrow> dict_items vs)"
  by (cases v) (simp_all add: dict_items_def map_filter_simps)

lemma dict_items_filter: "map JObj (dict_items vs) = filter is_dict vs"
  by (induction vs) (auto simp: dict_items_Nil dict_items_Cons is_dict_def split: json.splits)

lemma dict_items_map_JObj: "dict_items (map JObj ks) = ks"
  by (induction ks) (simp_all add: dict_items_Nil dict_items_Cons)





lemma json_loads_ok_JArr: "json_loads_ok (JArr xs) \<longleftrightarrow> (\<forall>x\<in>set xs. json_loads_ok x)"
  by (simp add: list_all_iff)

lemma store_ok_iff:
  "json_loads_ok (JArr (map JObj ks)) \<longleftrightarrow> (\<forall>d\<in>set ks. json_loads_ok (JObj d))"
  by (simp only: json_loads_ok_JArr) auto

lemma dict_items_member: "d \<in> set (dict_items items) \<Longrightarrow> JObj d \<in> set items"
proof -
  assume "d \<in> set (dict_items items)"
  then have "JObj d \<in> set (map JObj (dict_items items))"
    by simp
  then show ?thesis
    by (simp only: dict_items_filter) simp
qed

lemma load_ok:
  assumes "load_knowledge f = Inr ks"
  shows "json_loads_ok (JArr (map JObj ks))"
proof (cases f)
  case (JsonDoc data)
  with assms have ok: "json_loads_ok data"
    by (auto simp: load_knowledge_def split: if_splits)
  show ?thesis
  proof (cases data)
    case (JArr items)
    with assms JsonDoc ok have "ks = dict_items items"
      by (simp add: load_knowledge_def)
    with ok JArr show ?thesis
      unfolding store_ok_iff by (auto simp only: json_loads_ok_JArr dest: dict_items_member)
  next
    case (JObj d)
    with assms JsonDoc ok have "ks = [d]"
      by (simp add: load_knowledge_def)
    with ok JObj show ?thesis
      unfolding store_ok_iff by simp
  qed (use assms JsonDoc ok in \<open>auto simp: load_knowledge_def\<close>)
qed (use assms in \<open>auto simp: load_knowledge_def\<close>)

lemma load_save:
  "json_loads_ok (JArr (map JObj ks)) \<Longrightarrow> load_knowledge (save_knowledge ks) = Inr ks"
  by (simp add: load_knowledge_def save_knowledge_def dict_items_map_JObj)

lemma unresolved_ok: "json_loads_ok (JObj (unresolved_record q))"
  by (simp add: unresolved_record_def)

lemma load_save_append:
  assumes "load_knowledge f = Inr ks"
  shows "load_knowledge (save_knowledge (ks @ [unresolved_record q]))
    = Inr (ks @ [unresolved_record q])"
proof (rule load_save)
  from load_ok [OF assms] show "json_loads_ok (JArr (map JObj (ks @ [unresolved_record q])))"
    unfolding store_ok_iff using unresolved_ok [of q] by auto
qed



text \<open>
  Claim C7. A missing file, an empty file and a text that is not JSON load as the empty
  store. A file whose bytes are not UTF-8 does not: \<^verbatim>\<open>read_text\<close> raises
  \<^verbatim>\<open>UnicodeDecodeError\<close>, which \<^verbatim>\<open>except json.JSONDecodeError\<close> does not catch, and the
  exception leaves \<^verbatim>\<open>chat\<close>, whatever the world and the message.
\<close>

theorem load_knowledge_not_utf8_raises:
  "load_knowledge NoFile = Inr []
   \<and> load_knowledge EmptyFile = Inr []
   \<and> load_knowledge NotJson = Inr []
   \<and> load_knowledge NotUtf8 = Inl UnicodeDecodeError
   \<and> chat w NotUtf8 message = (Inl UnicodeDecodeError, NotUtf8)"
  by (simp add: load_knowledge_def chat_def)

subsection \<open>Unresolved records and the readers of the store\<close>

lemma question_of_unresolved: "question_of (unresolved_record q) = q"
  by (simp add: question_of_def unresolved_record_def dict_get_def py_str_def)

lemma answer_of_unresolved: "answer_of (unresolved_record q) = []"
  by (simp add: answer_of_def unresolved_record_def dict_get_def py_str_def)

lemma strip_Nil: "strip [] = []"
  by (simp add: strip_def)

lemma normalized_unresolved:
  "normalized_question (unresolved_record (strip m)) = lower (strip m)"
  by (simp add: normalized_question_def question_of_unresolved strip_strip)

text \<open>A record without an answer at the end of the store is invisible to every reader.\<close>

lemma find_loop_append:
  "strip (answer_of r) = [] \<Longrightarrow> find_loop text (ks @ [r]) = find_loop text ks"
  by (induction ks) (simp_all add: Let_def)

lemma find_reply_append:
  "strip (answer_of r) = [] \<Longrightarrow> find_reply m (ks @ [r]) = find_reply m ks"
  by (simp add: find_reply_def find_loop_append Let_def)

lemma scored_loop_append:
  "strip (answer_of r) = [] \<Longrightarrow> scored_loop T (ks @ [r]) = scored_loop T ks"
  by (induction ks) (simp_all add: Let_def)

lemma topic_loop_append: "topic_loop (xs @ ys) = topic_loop xs @ topic_loop ys"
  by (induction xs) (simp_all add: Let_def)

lemma topic_loop_take_single:
  "strip (answer_of r) = [] \<Longrightarrow> topic_loop (take n [r]) = []"
  by (cases n) (simp_all add: Let_def)

lemma kb_context_append:
  "strip (answer_of r) = [] \<Longrightarrow> kb_context (ks @ [r]) = kb_context ks"
  by (simp add: kb_context_def topic_loop_append topic_loop_take_single)

lemma related_topics_append:
  "strip (answer_of r) = [] \<Longrightarrow> related_topics m (ks @ [r]) n = related_topics m ks n"
  by (simp add: related_topics_def scored_loop_append)

lemma fallback_reply_append:
  "strip (answer_of r) = [] \<Longrightarrow> fallback_reply m (ks @ [r]) = fallback_reply m ks"
  by (simp add: fallback_reply_def related_text_def related_topics_append)

lemma llm_prompt_append:
  "strip (answer_of r) = [] \<Longrightarrow> llm_prompt m (ks @ [r]) = llm_prompt m ks"
  by (simp add: llm_prompt_def kb_context_append)

lemma llm_reply_append:
  "strip (answer_of r) = [] \<Longrightarrow> llm_reply w m (ks @ [r]) = llm_reply w m ks"
  unfolding llm_reply_def by (simp only: llm_prompt_append)

lemma answer_stage_append:
  "strip (answer_of r) = [] \<Longrightarrow> answer_stage w m (ks @ [r]) = answer_stage w m ks"
  unfolding answer_stage_def by (simp only: llm_reply_append fallback_reply_append)

lemma track_cases:
  "track_unknown_issue m ks f =
     (if strip m = [] \<or> lower (strip m) \<in> normalized_question ` set ks then (ks, f)
      else (ks @ [unresolved_record (strip m)], save_knowledge (ks @ [unresolved_record (strip m)])))"
  by (auto simp: track_unknown_issue_def Let_def normalized_question_def)

subsection \<open>The tracker leaves the reply alone\<close>

lemma chat_file_error: "load_knowledge f = Inl e \<Longrightarrow> chat w f m = (Inl e, f)"
  by (simp add: chat_def)

lemma chat_tracked:
  assumes "load_knowledge f = Inr ks" "\<not> truthy (smalltalk_reply m)"
    "\<not> truthy (find_reply m ks)" "\<not> truthy (openstack_script_reply m)"
  shows "chat w f m =
     (if is_incident_like m
      then (answer_stage w m (fst (track_unknown_issue m ks f)), snd (track_unknown_issue m ks f))
      else (answer_stage w m ks, f))"
  using assms by (simp add: chat_def Let_def split_beta)

lemma chat_file_cases:
  assumes "load_knowledge f = Inr ks"
  shows "snd (chat w f m) = f \<or>
    (strip m \<noteq> [] \<and> lower (strip m) \<notin> normalized_question ` set ks \<and>
     snd (chat w f m) = save_knowledge (ks @ [unresolved_record (strip m)]))"
  using assms by (simp add: chat_def Let_def split_beta track_cases)

lemma answer_stage_track:
  "answer_stage w m (fst (track_unknown_issue m ks f)) = answer_stage w m ks"
  by (simp add: track_cases answer_stage_append answer_of_unresolved strip_Nil)

text \<open>
  Claim C5. The reply and the source of \<^verbatim>\<open>chat\<close> do not depend on the tracker: the result of
  \<^verbatim>\<open>chat\<close> is the one the stages give on the store as it was loaded. The list the tracker
  returns, with or without the appended record, gives the same LLM exchange (the same
  grounding context in the prompt), the same fallback text and the same related topics
  as the list it was given; the same holds for the exception a malformed provider answer
  raises.
\<close>

theorem tracker_frame:
  "fst (chat w file message) =
     (case load_knowledge file of
        Inl e \<Rightarrow> Inl e
      | Inr knowledge \<Rightarrow>
          if truthy (smalltalk_reply message)
            then Inr \<lparr>reply = the (smalltalk_reply message), source = ''intent''\<rparr>
          else if truthy (find_reply message knowledge)
            then Inr \<lparr>reply = the (find_reply message knowledge), source = ''knowledge.json''\<rparr>
          else if truthy (openstack_script_reply message)
            then Inr \<lparr>reply = the (openstack_script_reply message),
                      source = ''template:openstack_script''\<rparr>
          else answer_stage w message knowledge)
   \<and> answer_stage w message (fst (track_unknown_issue message ks f)) = answer_stage w message ks
   \<and> llm_reply w message (fst (track_unknown_issue message ks f)) = llm_reply w message ks
   \<and> kb_context (fst (track_unknown_issue message ks f)) = kb_context ks
   \<and> fallback_reply message (fst (track_unknown_issue message ks f)) = fallback_reply message ks
   \<and> related_topics message (fst (track_unknown_issue message ks f)) 3
       = related_topics message ks 3"
proof -
  have "fst (chat w file message) =
     (case load_knowledge file of
        Inl e \<Rightarrow> Inl e
      | Inr knowledge \<Rightarrow>
          if truthy (smalltalk_reply message)
            then Inr \<lparr>reply = the (smalltalk_reply message), source = ''intent''\<rparr>
          else if truthy (find_reply message knowledge)
            then Inr \<lparr>reply = the (find_reply message knowledge), source = ''knowledge.json''\<rparr>
          else if truthy (openstack_script_reply message)
            then Inr \<lparr>reply = the (openstack_script_reply message),
                      source = ''template:openstack_script''\<rparr>
          else answer_stage w message knowledge)"
    by (simp add: chat_def Let_def split_beta answer_stage_track split: sum.split)
  moreover have "strip (answer_of (unresolved_record (strip message))) = []"
    by (simp add: answer_of_unresolved strip_Nil)
  ultimately show ?thesis
    by (simp add: track_cases answer_stage_append llm_reply_append kb_context_append
        fallback_reply_append related_topics_append)
qed

theorem tracker_frame_witness:
  "snd (chat quiet_world NoFile ''pod error'') = save_knowledge [unresolved_record ''pod error'']
   \<and> fst (chat quiet_world NoFile ''pod error'') = answer_stage quiet_world ''pod error'' []
   \<and> fst (chat quiet_world NoFile ''pod error'')
       = Inr \<lparr>reply = generic_reply, source = ''fallback:no_llm_api_key''\<rparr>"
proof -
  have a: "load_knowledge NoFile = Inr []"
    by (simp add: load_knowledge_def)
  have b: "\<not> truthy (smalltalk_reply ''pod error'')"
    by code_simp
  have c: "\<not> truthy (find_reply ''pod error'' [])"
    by code_simp
  have d: "\<not> truthy (openstack_script_reply ''pod error'')"
    by code_simp
  have e: "snd (chat quiet_world NoFile ''pod error'')
      = save_knowledge [unresolved_record ''pod error'']"
    by code_simp
  have g: "answer_stage quiet_world ''pod error'' []
      = Inr \<lparr>reply = generic_reply, source = ''fallback:no_llm_api_key''\<rparr>"
    by code_simp
  from tracker_frame [of quiet_world NoFile "''pod error''"] a b c d
  have "fst (chat quiet_world NoFile ''pod error'') = answer_stage quiet_world ''pod error'' []"
    by simp
  with e g show ?thesis by simp
qed

subsection \<open>Tracking the same message twice\<close>

lemma truthy_append_unresolved:
  "truthy (find_reply m (ks @ [unresolved_record q])) = truthy (find_reply m ks)"
  by (simp add: find_reply_append answer_of_unresolved strip_Nil)

text \<open>
  Claim C4, amended. Two runs of \<^verbatim>\<open>chat\<close> with the same incident-like message that no earlier
  stage answers append at most one record: the first run appends the unresolved record of
  the message unless the store already has a record with that normalized question, and
  the second run appends nothing and leaves the file as the first run left it. The worlds
  of the two runs may differ.
\<close>

theorem chat_twice:
  assumes "load_knowledge file = Inr knowledge"
    and "\<not> truthy (smalltalk_reply m)"
    and "\<not> truthy (find_reply m knowledge)"
    and "\<not> truthy (openstack_script_reply m)"
    and "is_incident_like m"
  shows "load_knowledge (snd (chat w1 file m)) =
           Inr (if lower (strip m) \<in> normalized_question ` set knowledge then knowledge
                else knowledge @ [unresolved_record (strip m)])
         \<and> snd (chat w2 (snd (chat w1 file m)) m) = snd (chat w1 file m)"
proof -
  define known where "known = (lower (strip m) \<in> normalized_question ` set knowledge)"
  define ks1 where
    "ks1 = (if known then knowledge else knowledge @ [unresolved_record (strip m)])"
  define f1 where "f1 = snd (chat w1 file m)"
  have nonblank: "strip m \<noteq> []"
    using assms(5) by (rule incident_not_blank)
  have first: "f1 = (if known then file else save_knowledge ks1)"
    unfolding f1_def ks1_def known_def
    using assms nonblank by (simp add: chat_tracked track_cases)
  have load1: "load_knowledge f1 = Inr ks1"
    using first assms(1) load_save_append [OF assms(1), of "strip m"]
    by (simp add: ks1_def)
  have again: "lower (strip m) \<in> normalized_question ` set ks1"
    unfolding ks1_def known_def by (simp add: normalized_unresolved)
  have "\<not> truthy (find_reply m ks1)"
    unfolding ks1_def using assms(3) by (simp add: truthy_append_unresolved)
  with load1 assms(2,4,5) again have "snd (chat w2 f1 m) = f1"
    by (simp add: chat_tracked track_cases)
  with load1 show ?thesis
    by (simp add: f1_def ks1_def known_def)
qed

theorem chat_twice_witness:
  "load_knowledge (snd (chat quiet_world NoFile ''pod error''))
     = Inr [unresolved_record ''pod error'']
   \<and> snd (chat quiet_world (snd (chat quiet_world NoFile ''pod error'')) ''pod error'')
     = snd (chat quiet_world NoFile ''pod error'')"
proof -
  have a: "load_knowledge NoFile = Inr []"
    by (simp add: load_knowledge_def)
  have b: "\<not> truthy (smalltalk_reply ''pod error'')"
    by code_simp
  have c: "\<not> truthy (find_reply ''pod error'' [])"
    by code_simp
  have d: "\<not> truthy (openstack_script_reply ''pod error'')"
    by code_simp
  have e: "is_incident_like ''pod error''"
    by code_simp
  have s: "strip ''pod error'' = ''pod error''"
    by code_simp
  from chat_twice [OF a b c d e, of quiet_world quiet_world] s show ?thesis
    by simp
qed

text \<open>
  As stated, with exactly one record appended, the claim fails on a store that already
  holds the question without an answer, which is the store any earlier run with the
  message leaves: no earlier stage answers, and neither run appends.
\<close>

theorem chat_twice_known_counterexample:
  "load_knowledge (save_knowledge [unresolved_record ''pod error''])
     = Inr [unresolved_record ''pod error'']
   \<and> is_incident_like ''pod error''
   \<and> smalltalk_reply ''pod error'' = None
   \<and> find_reply ''pod error'' [unresolved_record ''pod error''] = None
   \<and> openstack_script_reply ''pod error'' = None
   \<and> snd (chat quiet_world (save_knowledge [unresolved_record ''pod error'']) ''pod error'')
       = save_knowledge [unresolved_record ''pod error'']
   \<and> snd (chat quiet_world
            (snd (chat quiet_world (save_knowledge [unresolved_record ''pod error''])
                   ''pod error''))
            ''pod error'')
       = save_knowledge [unresolved_record ''pod error'']"
  by code_simp

subsection \<open>Uniqueness of tracked questions\<close>

lemma reachable_appended:
  assumes "reachable origin current" and "load_knowledge origin = Inr ks0"
  shows "\<exists>new. load_knowledge current = Inr (ks0 @ new)
           \<and> distinct (map normalized_question new)
           \<and> (\<forall>r\<in>set new. normalized_question r \<notin> normalized_question ` set ks0
                 \<and> normalized_question r \<noteq> []
                 \<and> (\<exists>q. r = unresolved_record q))"
  using assms
proof (induction rule: reachable.induct)
  case start
  then show ?case by simp
next
  case (request current w message)
  then obtain new where load: "load_knowledge current = Inr (ks0 @ new)"
    and dist: "distinct (map normalized_question new)"
    and fresh: "\<forall>r\<in>set new. normalized_question r \<notin> normalized_question ` set ks0
                 \<and> normalized_question r \<noteq> [] \<and> (\<exists>q. r = unresolved_record q)"
    by blast
  from chat_file_cases [OF load, of w message]
  show ?case
  proof
    assume "snd (chat w current message) = current"
    with load dist fresh show ?thesis by auto
  next
    assume step: "strip message \<noteq> []
      \<and> lower (strip message) \<notin> normalized_question ` set (ks0 @ new)
      \<and> snd (chat w current message)
          = save_knowledge ((ks0 @ new) @ [unresolved_record (strip message)])"
    let ?r = "unresolved_record (strip message)"
    have "load_knowledge (snd (chat w current message)) = Inr (ks0 @ (new @ [?r]))"
      using step load_save_append [OF load, of "strip message"] by simp
    moreover have "distinct (map normalized_question (new @ [?r]))"
      using step dist by (auto simp: normalized_unresolved)
    moreover have "\<forall>r\<in>set (new @ [?r]). normalized_question r \<notin> normalized_question ` set ks0
                 \<and> normalized_question r \<noteq> [] \<and> (\<exists>q. r = unresolved_record q)"
      using step fresh by (auto simp: normalized_unresolved lower_Nil_iff)
    ultimately show ?thesis by blast
  qed
qed

text \<open>
  Claim C2, amended. The tracker compares the normalized question of the new record with
  the normalized questions of the records of the store for equality only, and does not
  append on a match. So in every knowledge file that chat requests make of a file that
  loads, the store is the original store followed by appended unresolved records whose
  normalized questions are non-empty, differ from one another and differ from those of
  every original record: no appended record's normalized question equals that of an
  earlier record. Nothing is said of one question containing another.
\<close>

theorem appended_questions_unique:
  assumes "reachable origin current" and "load_knowledge origin = Inr ks0"
  shows "(lower (strip m) \<in> normalized_question ` set ks
            \<longrightarrow> track_unknown_issue m ks f = (ks, f))
         \<and> (\<exists>new. load_knowledge current = Inr (ks0 @ new)
               \<and> distinct (map normalized_question new)
               \<and> (\<forall>r\<in>set new. normalized_question r \<notin> normalized_question ` set ks0
                     \<and> normalized_question r \<noteq> []
                     \<and> (\<exists>q. r = unresolved_record q)))"
  using reachable_appended [OF assms] by (simp add: track_cases)

theorem appended_questions_unique_witness:
  "track_unknown_issue ''Pod Error '' [unresolved_record ''pod error''] NotJson
     = ([unresolved_record ''pod error''], NotJson)
   \<and> load_knowledge
       (snd (chat quiet_world (snd (chat quiet_world NoFile ''pod error'')) ''Pod Error ''))
       = Inr [unresolved_record ''pod error'']
   \<and> distinct (map normalized_question [unresolved_record ''pod error''])"
proof -
  let ?f = "snd (chat quiet_world (snd (chat quiet_world NoFile ''pod error'')) ''Pod Error '')"
  have r: "reachable NoFile ?f"
    by (intro reachable.request reachable.start)
  have l: "load_knowledge NoFile = Inr []"
    by (simp add: load_knowledge_def)
  have k: "lower (strip ''Pod Error '')
      \<in> normalized_question ` set [unresolved_record ''pod error'']"
    by code_simp
  have c: "load_knowledge ?f = Inr [unresolved_record ''pod error'']"
    by code_simp
  from appended_questions_unique [OF r l,
      of "''Pod Error ''" "[unresolved_record ''pod error'']" NotJson] k c
  show ?thesis by auto
qed

text \<open>
  As stated, with substring matches excluded as well, the claim fails: after a request
  for \<^verbatim>\<open>Pod error in namespace\<close> a request for \<^verbatim>\<open>pod error\<close> is appended although its
  normalized question is contained in the earlier record's.
\<close>

theorem substring_duplicate_counterexample:
  "load_knowledge
     (snd (chat quiet_world (snd (chat quiet_world NoFile ''Pod error in namespace''))
             ''pod error''))
     = Inr [unresolved_record ''Pod error in namespace'', unresolved_record ''pod error'']
   \<and> normalized_question (unresolved_record ''Pod error in namespace'')
       = ''pod error in namespace''
   \<and> normalized_question (unresolved_record ''pod error'') = ''pod error''
   \<and> in_str (normalized_question (unresolved_record ''pod error''))
        (normalized_question (unresolved_record ''Pod error in namespace''))"
  by code_simp

subsection \<open>Appending and reloading\<close>

lemma track_length:
  "length (fst (track_unknown_issue m ks f)) \<le> Suc (length ks)"
  by (simp add: track_cases)

lemma track_all_length:
  "length (fst (track_all ms (ks, f))) \<le> length ks + length ms"
proof (induction ms arbitrary: ks f)
  case Nil
  then show ?case by simp
next
  case (Cons m ms)
  have "length (fst (track_all ms (track_unknown_issue m ks f)))
      \<le> length (fst (track_unknown_issue m ks f)) + length ms"
    using Cons.IH [of "fst (track_unknown_issue m ks f)" "snd (track_unknown_issue m ks f)"]
    by simp
  with track_length [of m ks f] show ?case by simp
qed

lemma track_all_appended:
  assumes "track_all ms (ks, f) = (ks', f')" and "length ks' = length ks + length ms"
    and "load_knowledge f = Inr ks"
  shows "ks' = ks @ map (\<lambda>m. unresolved_record (strip m)) ms
         \<and> load_knowledge f' = Inr ks'
         \<and> distinct (map (\<lambda>m. lower (strip m)) ms)
         \<and> (\<forall>m\<in>set ms. strip m \<noteq> [] \<and> lower (strip m) \<notin> normalized_question ` set ks)"
  using assms
proof (induction ms arbitrary: ks f)
  case Nil
  then show ?case by simp
next
  case (Cons m ms)
  let ?t = "track_unknown_issue m ks f"
  let ?r = "unresolved_record (strip m)"
  have run: "track_all ms (fst ?t, snd ?t) = (ks', f')"
    using Cons.prems(1) by simp
  have "length ks' \<le> length (fst ?t) + length ms"
    using track_all_length [of ms "fst ?t" "snd ?t"] run by simp
  with Cons.prems(2) track_length [of m ks f] have len: "length (fst ?t) = Suc (length ks)"
    by simp
  then have app: "strip m \<noteq> [] \<and> lower (strip m) \<notin> normalized_question ` set ks"
    by (auto simp: track_cases split: if_splits)
  then have t: "?t = (ks @ [?r], save_knowledge (ks @ [?r]))"
    by (simp add: track_cases)
  have "ks' = (ks @ [?r]) @ map (\<lambda>m. unresolved_record (strip m)) ms
         \<and> load_knowledge f' = Inr ks'
         \<and> distinct (map (\<lambda>m. lower (strip m)) ms)
         \<and> (\<forall>m\<in>set ms. strip m \<noteq> []
               \<and> lower (strip m) \<notin> normalized_question ` set (ks @ [?r]))"
  proof (rule Cons.IH)
    show "track_all ms (ks @ [?r], save_knowledge (ks @ [?r])) = (ks', f')"
      using run t by simp
    show "length ks' = length (ks @ [?r]) + length ms"
      using Cons.prems(2) by simp
    show "load_knowledge (save_knowledge (ks @ [?r])) = Inr (ks @ [?r])"
      using Cons.prems(3) by (rule load_save_append)
  qed
  with app show ?case
    by (auto simp: normalized_unresolved)
qed

lemma track_all_fresh:
  assumes "distinct (map (\<lambda>m. lower (strip m)) ms)"
    and "\<forall>m\<in>set ms. strip m \<noteq> [] \<and> lower (strip m) \<notin> normalized_question ` set ks"
  shows "fst (track_all ms (ks, f)) = ks @ map (\<lambda>m. unresolved_record (strip m)) ms"
  using assms
proof (induction ms arbitrary: ks f)
  case Nil
  then show ?case by simp
next
  case (Cons m ms)
  let ?r = "unresolved_record (strip m)"
  have t: "track_unknown_issue m ks f = (ks @ [?r], save_knowledge (ks @ [?r]))"
    using Cons.prems(2) by (simp add: track_cases)
  have "fst (track_all ms (ks @ [?r], save_knowledge (ks @ [?r])))
      = (ks @ [?r]) @ map (\<lambda>m. unresolved_record (strip m)) ms"
  proof (rule Cons.IH)
    show "distinct (map (\<lambda>m. lower (strip m)) ms)"
      using Cons.prems(1) by simp
    show "\<forall>m\<in>set ms. strip m \<noteq> []
        \<and> lower (strip m) \<notin> normalized_question ` set (ks @ [?r])"
      using Cons.prems by (auto simp: normalized_unresolved image_iff)
  qed
  with t show ?case by simp
qed

text \<open>
  Claim C6. Start from a store and the file it was loaded from, and let the tracker run
  on \<open>N\<close> messages. All \<open>N\<close> calls append, that is, the store grows by \<open>N\<close>
  records, exactly when the normalized questions of the messages are distinct, non-empty
  and not among the normalized questions of the store. The file, reloaded, is then the
  original records followed by the \<open>N\<close> records of the messages in the order of the
  calls, each with answer \<^verbatim>\<open>""\<close> and status \<^verbatim>\<open>unresolved\<close>; the same holds for the final
  list saved and loaded again.
\<close>

theorem track_all_roundtrip:
  assumes "load_knowledge f = Inr ks"
    and "track_all ms (ks, f) = (ks', f')"
  shows "(length ks' = length ks + length ms
            \<longleftrightarrow> distinct (map (\<lambda>m. lower (strip m)) ms)
                \<and> (\<forall>m\<in>set ms. strip m \<noteq> []
                      \<and> lower (strip m) \<notin> normalized_question ` set ks))
         \<and> (length ks' = length ks + length ms
            \<longrightarrow> load_knowledge f' = Inr (ks @ map (\<lambda>m. unresolved_record (strip m)) ms)
                \<and> load_knowledge (save_knowledge ks')
                    = Inr (ks @ map (\<lambda>m. unresolved_record (strip m)) ms)
                \<and> (\<forall>r\<in>set (map (\<lambda>m. unresolved_record (strip m)) ms).
                      dict_get r ''answer'' JNull = JStr []
                      \<and> dict_get r ''status'' JNull = JStr ''unresolved''))"
proof (intro conjI impI iffI)
  assume len: "length ks' = length ks + length ms"
  from track_all_appended [OF assms(2) len assms(1)]
  have ks': "ks' = ks @ map (\<lambda>m. unresolved_record (strip m)) ms"
    and lf: "load_knowledge f' = Inr ks'"
    and "distinct (map (\<lambda>m. lower (strip m)) ms)"
    and "\<forall>m\<in>set ms. strip m \<noteq> [] \<and> lower (strip m) \<notin> normalized_question ` set ks"
    by simp_all
  then show "distinct (map (\<lambda>m. lower (strip m)) ms)"
    and "\<forall>m\<in>set ms. strip m \<noteq> [] \<and> lower (strip m) \<notin> normalized_question ` set ks"
    and "load_knowledge f' = Inr (ks @ map (\<lambda>m. unresolved_record (strip m)) ms)"
    by simp_all
  show "load_knowledge (save_knowledge ks')
      = Inr (ks @ map (\<lambda>m. unresolved_record (strip m)) ms)"
    using load_save [OF load_ok [OF lf]] ks' by simp
  show "\<forall>r\<in>set (map (\<lambda>m. unresolved_record (strip m)) ms).
      dict_get r ''answer'' JNull = JStr [] \<and> dict_get r ''status'' JNull = JStr ''unresolved''"
    by (simp add: unresolved_record_def dict_get_def)
next
  assume "distinct (map (\<lambda>m. lower (strip m)) ms)
      \<and> (\<forall>m\<in>set ms. strip m \<noteq> [] \<and> lower (strip m) \<notin> normalized_question ` set ks)"
  then have "fst (track_all ms (ks, f)) = ks @ map (\<lambda>m. unresolved_record (strip m)) ms"
    by (simp add: track_all_fresh)
  with assms(2) show "length ks' = length ks + length ms"
    by simp
qed

theorem track_all_roundtrip_witness:
  "load_knowledge
     (snd (track_all [''pod error'', '' Nova down '']
             ([[(''q'', JStr ''hi there''), (''a'', JStr ''hello'')]],
              JsonDoc (JObj [(''q'', JStr ''hi there''), (''a'', JStr ''hello'')]))))
     = Inr [[(''q'', JStr ''hi there''), (''a'', JStr ''hello'')],
            unresolved_record ''pod error'', unresolved_record ''Nova down'']"
proof -
  let ?k = "[(''q'', JStr ''hi there''), (''a'', JStr ''hello'')]"
  let ?ms = "[''pod error'', '' Nova down '']"
  let ?t = "track_all ?ms ([?k], JsonDoc (JObj ?k))"
  have a: "load_knowledge (JsonDoc (JObj ?k)) = Inr [?k]"
    by (simp add: load_knowledge_def)
  have b: "?t = (fst ?t, snd ?t)"
    by simp
  have c: "length (fst ?t) = length [?k] + length ?ms"
    by code_simp
  have d: "map (\<lambda>m. unresolved_record (strip m)) ?ms
      = [unresolved_record ''pod error'', unresolved_record ''Nova down'']"
    by code_simp
  from track_all_roundtrip [OF a b, THEN conjunct2] c d show ?thesis
    by simp
qed

subsection \<open>The lookup and its matching rule\<close>

lemma find_loop_spec: "find_loop text ks = spec_lookup text ks"
  by (induction ks)
    (auto simp: spec_lookup_def spec_matches_def normalized_question_def Let_def)

lemma spec_lookup_none:
  "(\<forall>r\<in>set ks. \<not> spec_matches text r) \<Longrightarrow> spec_lookup text ks = None"
  by (induction ks) (simp_all add: spec_lookup_def)

lemma spec_lookup_first:
  "(\<forall>r\<in>set pre. \<not> spec_matches text r) \<Longrightarrow> spec_matches text r
     \<Longrightarrow> spec_lookup text (pre @ r # rest) = Some (strip (answer_of r))"
  by (induction pre) (simp_all add: spec_lookup_def)

lemma find_loop_nonempty: "find_loop text ks = Some a \<Longrightarrow> a \<noteq> []"
  by (induction ks) (auto simp: Let_def split: if_splits)

lemma find_reply_nonempty: "find_reply m ks = Some a \<Longrightarrow> a \<noteq> []"
  by (auto simp: find_reply_def Let_def please_type_def find_loop_nonempty split: if_splits)

lemma smalltalk_blank: "lower (strip m) = [] \<Longrightarrow> smalltalk_reply m = Some please_type"
  by (simp add: smalltalk_reply_def)

lemma lookup_reached_nonblank: "\<not> truthy (smalltalk_reply m) \<Longrightarrow> lower (strip m) \<noteq> []"
  using smalltalk_blank [of m] by (auto simp: truthy_def please_type_def)

lemma find_reply_blank: "lower (strip m) = [] \<Longrightarrow> find_reply m ks = Some please_type"
  by (simp add: find_reply_def)

lemma chat_blank:
  "lower (strip m) = [] \<Longrightarrow> load_knowledge f = Inr ks
     \<Longrightarrow> chat w f m = (Inr \<lparr>reply = please_type, source = ''intent''\<rparr>, f)"
  by (simp add: chat_def smalltalk_blank truthy_def please_type_def)

lemma chat_lookup:
  assumes "load_knowledge f = Inr ks" and "\<not> truthy (smalltalk_reply m)"
    and "spec_lookup (lower (strip m)) ks = Some a"
  shows "chat w f m = (Inr \<lparr>reply = a, source = ''knowledge.json''\<rparr>, f)"
proof -
  have "find_reply m ks = Some a"
    using lookup_reached_nonblank [OF assms(2)] assms(3)
    by (simp add: find_reply_def find_loop_spec)
  with find_reply_nonempty [OF this] assms(1,2) show ?thesis
    by (simp add: chat_def truthy_def)
qed

text \<open>
  Claim C3. \<^verbatim>\<open>chat\<close> hands a message to the lookup only when the intent classifier has no
  reply, and then the message is not empty after trimming. On every message that is not
  empty after trimming, the lookup goes through the records in store order and returns
  the trimmed answer of the first record that matches the normalized message, which
  \<^verbatim>\<open>chat\<close> returns with source \<^verbatim>\<open>knowledge.json\<close>; it reports no match when no record
  matches. A record matches when its normalized question and its trimmed answer are
  non-empty and either the normalized question and the normalized message contain one
  another, or the question has tokens and at least six tenths of them are tokens of the
  message. The containment test stands before the token test in the loop; both return
  the same answer. On a message that is empty after trimming, which only a caller other
  than \<^verbatim>\<open>chat\<close> can pass, the lookup returns the request to type a message whatever the
  store; \<^verbatim>\<open>chat\<close> has given that reply with source \<^verbatim>\<open>intent\<close> before.
\<close>

theorem find_reply_spec:
  "(lower (strip m) \<noteq> [] \<longrightarrow>
      find_reply m ks = spec_lookup (lower (strip m)) ks
      \<and> ((\<forall>r\<in>set ks. \<not> spec_matches (lower (strip m)) r) \<longrightarrow> find_reply m ks = None)
      \<and> ((\<forall>r\<in>set pre. \<not> spec_matches (lower (strip m)) r)
            \<and> spec_matches (lower (strip m)) r
          \<longrightarrow> find_reply m (pre @ r # rest) = Some (strip (answer_of r))))
   \<and> (\<not> truthy (smalltalk_reply m) \<longrightarrow> lower (strip m) \<noteq> [])
   \<and> (load_knowledge f = Inr ks \<and> \<not> truthy (smalltalk_reply m)
        \<and> spec_lookup (lower (strip m)) ks = Some a
      \<longrightarrow> chat w f m = (Inr \<lparr>reply = a, source = ''knowledge.json''\<rparr>, f))
   \<and> (lower (strip m) = [] \<longrightarrow> find_reply m ks = Some please_type)
   \<and> (lower (strip m) = [] \<and> load_knowledge f = Inr ks
      \<longrightarrow> chat w f m = (Inr \<lparr>reply = please_type, source = ''intent''\<rparr>, f))"
proof (intro conjI impI)
  assume "lower (strip m) \<noteq> []"
  then show "find_reply m ks = spec_lookup (lower (strip m)) ks"
    by (simp add: find_reply_def find_loop_spec)
next
  assume "lower (strip m) \<noteq> []" and "\<forall>r\<in>set ks. \<not> spec_matches (lower (strip m)) r"
  then show "find_reply m ks = None"
    by (simp add: find_reply_def find_loop_spec spec_lookup_none)
next
  assume "lower (strip m) \<noteq> []"
    and "(\<forall>r\<in>set pre. \<not> spec_matches (lower (strip m)) r) \<and> spec_matches (lower (strip m)) r"
  then show "find_reply m (pre @ r # rest) = Some (strip (answer_of r))"
    by (simp add: find_reply_def find_loop_spec spec_lookup_first)
next
  assume "\<not> truthy (smalltalk_reply m)"
  then show "lower (strip m) \<noteq> []"
    by (rule lookup_reached_nonblank)
next
  assume "load_knowledge f = Inr ks \<and> \<not> truthy (smalltalk_reply m)
        \<and> spec_lookup (lower (strip m)) ks = Some a"
  then show "chat w f m = (Inr \<lparr>reply = a, source = ''knowledge.json''\<rparr>, f)"
    by (simp add: chat_lookup)
next
  assume "lower (strip m) = []"
  then show "find_reply m ks = Some please_type"
    by (rule find_reply_blank)
next
  assume "lower (strip m) = [] \<and> load_knowledge f = Inr ks"
  then show "chat w f m = (Inr \<lparr>reply = please_type, source = ''intent''\<rparr>, f)"
    by (simp add: chat_blank)
qed

theorem find_reply_spec_witness:
  "find_reply ''Pod crash loop''
     [[(''question'', JStr ''loop''), (''answer'', JStr '' '')],
      [(''q'', JStr ''Crash loop backoff pod X''), (''a'', JStr '' restart it '')],
      [(''question'', JStr ''pod''), (''answer'', JStr ''later'')]]
   = Some ''restart it''
   \<and> find_reply ''Pod crash loop''
       [[(''q'', JStr ''Crash loop backoff pod X Y''), (''a'', JStr '' restart it '')]] = None
   \<and> chat quiet_world
        (JsonDoc (JObj [(''q'', JStr ''Crash loop backoff pod X''), (''a'', JStr '' restart it '')]))
        ''Pod crash loop''
      = (Inr \<lparr>reply = ''restart it'', source = ''knowledge.json''\<rparr>,
         JsonDoc (JObj [(''q'', JStr ''Crash loop backoff pod X''), (''a'', JStr '' restart it '')]))
   \<and> chat quiet_world NoFile ''  ''
      = (Inr \<lparr>reply = ''Please type a message so I can help.'', source = ''intent''\<rparr>, NoFile)"
proof -
  let ?m = "''Pod crash loop''"
  let ?r1 = "[(''question'', JStr ''loop''), (''answer'', JStr '' '')]"
  let ?r2 = "[(''q'', JStr ''Crash loop backoff pod X''), (''a'', JStr '' restart it '')]"
  let ?r3 = "[(''question'', JStr ''pod''), (''answer'', JStr ''later'')]"
  let ?r4 = "[(''q'', JStr ''Crash loop backoff pod X Y''), (''a'', JStr '' restart it '')]"
  have t: "lower (strip ?m) = ''pod crash loop''"
    by code_simp
  have n: "lower (strip ?m) \<noteq> []"
    by (simp add: t)
  have a: "\<not> spec_matches ''pod crash loop'' ?r1"
    by code_simp
  have b: "spec_matches ''pod crash loop'' ?r2"
    by code_simp
  have c: "strip (answer_of ?r2) = ''restart it''"
    by code_simp
  have d: "\<not> spec_matches ''pod crash loop'' ?r4"
    by code_simp
  have first: "find_reply ?m [?r1, ?r2, ?r3] = Some ''restart it''"
    using find_reply_spec [of ?m "[]" "[?r1]" ?r2 "[?r3]", THEN conjunct1, THEN mp, OF n,
        THEN conjunct2, THEN conjunct2] a b c
    by (simp add: t)
  have second: "find_reply ?m [?r4] = None"
    using find_reply_spec [of ?m "[?r4]", THEN conjunct1, THEN mp, OF n,
        THEN conjunct2, THEN conjunct1] d
    by (simp add: t)
  have l: "load_knowledge (JsonDoc (JObj ?r2)) = Inr [?r2]"
    by code_simp
  have s: "\<not> truthy (smalltalk_reply ?m)"
    by code_simp
  have k: "spec_lookup (lower (strip ?m)) [?r2] = Some ''restart it''"
    by code_simp
  have third: "chat quiet_world (JsonDoc (JObj ?r2)) ?m
      = (Inr \<lparr>reply = ''restart it'', source = ''knowledge.json''\<rparr>, JsonDoc (JObj ?r2))"
    using find_reply_spec [of ?m "[?r2]" _ _ _ "JsonDoc (JObj ?r2)" "''restart it''" quiet_world,
        THEN conjunct2, THEN conjunct2, THEN conjunct1] l s k
    by simp
  have e: "lower (strip ''  '') = []"
    by code_simp
  have g: "load_knowledge NoFile = Inr []"
    by (simp add: load_knowledge_def)
  have fourth: "chat quiet_world NoFile ''  ''
      = (Inr \<lparr>reply = ''Please type a message so I can help.'', source = ''intent''\<rparr>, NoFile)"
    using find_reply_spec [of "''  ''" "[]" _ _ _ NoFile _ quiet_world,
        THEN conjunct2, THEN conjunct2, THEN conjunct2, THEN conjunct2] e g
    by (simp add: please_type_def)
  from first second third fourth show ?thesis by simp
qed

subsection \<open>The script template in the pipeline\<close>

lemma lower_char_b: "lower_char c = CHR ''b'' \<Longrightarrow> \<not> is_space c"
  unfolding is_space_cases
  by (auto simp: lower_char_def ascii_uppercase_def ascii_lowercase_def)

lemma b_survives: "CHR ''b'' \<in> set (lower m) \<Longrightarrow> CHR ''b'' \<in> set (lower (strip m))"
proof -
  assume "CHR ''b'' \<in> set (lower m)"
  then obtain c where c: "c \<in> set m" "lower_char c = CHR ''b''"
    by (auto simp: lower_def)
  then have "c \<in> set (strip m)"
    by (simp add: set_strip_keep lower_char_b)
  with c(2) show ?thesis
    by (force simp: lower_def)
qed

lemma smalltalk_none:
  assumes "in_str ''available'' (lower m)"
  shows "smalltalk_reply m = None"
proof -
  have "CHR ''b'' \<in> set (lower m)"
    using in_str_set [OF assms] by simp
  then have b: "CHR ''b'' \<in> set (lower (strip m))"
    by (rule b_survives)
  then have "lower (strip m) \<noteq> []"
    by auto
  moreover have "lower (strip m) \<notin> greetings"
    using b by (auto simp: greetings_def)
  moreover have "lower (strip m) \<notin> thanks"
    using b by (auto simp: thanks_def)
  moreover have "lower (strip m) \<notin> {''help'', ''what can you do'', ''what can you help with''}"
    using b by auto
  ultimately show ?thesis
    by (simp add: smalltalk_reply_def Let_def)
qed

lemma header_in_script: "in_str script_header script_reply"
  by (simp add: in_str_sublist script_reply_def sublist_appendI)

text \<open>
  Claim C1, amended. For every message whose lowercased text contains \<^verbatim>\<open>openstack\<close>,
  \<^verbatim>\<open>volume\<close>, \<^verbatim>\<open>available\<close> and one of \<^verbatim>\<open>delete\<close> and \<^verbatim>\<open>remove\<close>, and every knowledge
  file that loads: the intent classifier does not answer; if the lookup finds no record,
  \<^verbatim>\<open>chat\<close> returns the static script reply, which contains the line
  \<^verbatim>\<open>#!/usr/bin/env bash\<close>, with source \<^verbatim>\<open>template:openstack_script\<close>; if the lookup finds a
  record, \<^verbatim>\<open>chat\<close> returns that record's answer with source \<^verbatim>\<open>knowledge.json\<close>. The file is
  left as it is in both cases.
\<close>

theorem template_after_lookup:
  assumes "in_str ''openstack'' (lower m)" and "in_str ''volume'' (lower m)"
    and "in_str ''available'' (lower m)"
    and "in_str ''delete'' (lower m) \<or> in_str ''remove'' (lower m)"
    and "load_knowledge file = Inr ks"
  shows "chat w file m =
           (case find_reply m ks of
              None \<Rightarrow> (Inr \<lparr>reply = script_reply, source = ''template:openstack_script''\<rparr>, file)
            | Some answer \<Rightarrow> (Inr \<lparr>reply = answer, source = ''knowledge.json''\<rparr>, file))
         \<and> in_str script_header script_reply"
proof -
  have s: "smalltalk_reply m = None"
    using assms(3) by (rule smalltalk_none)
  have t: "openstack_script_reply m = Some script_reply"
    using assms(1-4) by (simp add: openstack_script_reply_def Let_def)
  have n: "script_reply \<noteq> []"
    by (simp add: script_reply_def script_header_def)
  show ?thesis
  proof (cases "find_reply m ks")
    case None
    with s t n assms(5) show ?thesis
      by (simp add: chat_def truthy_def header_in_script)
  next
    case (Some a)
    with find_reply_nonempty [OF Some] s assms(5) show ?thesis
      by (simp add: chat_def truthy_def header_in_script)
  qed
qed

theorem template_after_lookup_witness:
  "chat quiet_world NoFile ''Delete all available OpenStack volumes with a safe script''
     = (Inr \<lparr>reply = script_reply, source = ''template:openstack_script''\<rparr>, NoFile)
   \<and> in_str ''#!/usr/bin/env bash'' script_reply"
proof -
  let ?m = "''Delete all available OpenStack volumes with a safe script''"
  have a: "in_str ''openstack'' (lower ?m)" by code_simp
  have b: "in_str ''volume'' (lower ?m)" by code_simp
  have c: "in_str ''available'' (lower ?m)" by code_simp
  have d: "in_str ''delete'' (lower ?m) \<or> in_str ''remove'' (lower ?m)" by code_simp
  have e: "load_knowledge NoFile = Inr []" by (simp add: load_knowledge_def)
  have f: "find_reply ?m [] = None" by code_simp
  from template_after_lookup [OF a b c d e, of quiet_world] f show ?thesis
    by (simp add: script_header_def)
qed

text \<open>
  As stated, regardless of the store, the claim fails: the lookup stands before the
  template in \<^verbatim>\<open>chat\<close>, and a store with a matching record answers the request.
\<close>

theorem template_shadowed_counterexample:
  "in_str ''openstack'' (lower ''Delete all available OpenStack volumes with a safe script'')
   \<and> in_str ''volume'' (lower ''Delete all available OpenStack volumes with a safe script'')
   \<and> in_str ''available'' (lower ''Delete all available OpenStack volumes with a safe script'')
   \<and> in_str ''delete'' (lower ''Delete all available OpenStack volumes with a safe script'')
   \<and> chat quiet_world
        (JsonDoc (JArr [JObj [(''question'', JStr ''delete openstack volumes''),
                              (''answer'', JStr ''Use openstack volume delete <id>.'')]]))
        ''Delete all available OpenStack volumes with a safe script''
      = (Inr \<lparr>reply = ''Use openstack volume delete <id>.'', source = ''knowledge.json''\<rparr>,
         JsonDoc (JArr [JObj [(''question'', JStr ''delete openstack volumes''),
                              (''answer'', JStr ''Use openstack volume delete <id>.'')]]))
   \<and> fst (chat quiet_world
        (JsonDoc (JArr [JObj [(''question'', JStr ''delete openstack volumes''),
                              (''answer'', JStr ''Use openstack volume delete <id>.'')]]))
        ''Delete all available OpenStack volumes with a safe script'')
      \<noteq> Inr \<lparr>reply = script_reply, source = ''template:openstack_script''\<rparr>"
  by code_simp

subsection \<open>The fallback responder\<close>

lemma scored_loop_spec:
  "scored_loop T ks =
     map (\<lambda>item. (spec_score T item, strip (question_of item))) (filter (spec_listed T) ks)"
  by (induction ks) (simp_all add: Let_def spec_listed_def spec_score_def)

lemma sort_reverse_sorted: "sorted_wrt (\<lambda>a b. fst b \<le> fst a) (sort_reverse xs)"
proof -
  have "sorted (map fst (sort_key fst (rev xs)))"
    by (rule sorted_sort_key)
  then have "sorted_wrt (\<lambda>a b. fst a \<le> fst b) (sort_key fst (rev xs))"
    by (simp add: sorted_wrt_map)
  then show ?thesis
    by (simp add: sort_reverse_def sorted_wrt_rev)
qed

lemma sort_reverse_stable:
  "filter (\<lambda>x. fst x = s) (sort_reverse xs) = filter (\<lambda>x. fst x = s) xs"
proof -
  have "filter (\<lambda>x. fst x = s) (sort_reverse xs)
      = rev (filter (\<lambda>x. fst x = s) (sort_key fst (rev xs)))"
    by (simp add: sort_reverse_def rev_filter)
  also have "\<dots> = rev (filter (\<lambda>x. fst x = s) (rev xs))"
    by (simp only: sort_key_stable)
  also have "\<dots> = filter (\<lambda>x. fst x = s) xs"
    by (simp add: rev_filter)
  finally show ?thesis .
qed

lemma sort_reverse_set: "set (sort_reverse xs) = set xs"
  by (simp add: sort_reverse_def)

lemma sort_reverse_length: "length (sort_reverse xs) = length xs"
  by (simp add: sort_reverse_def)

lemma sort_reverse_Nil: "sort_reverse [] = []"
  by (simp add: sort_reverse_def)

lemma fallback_reply_groups:
  "fallback_reply m ks = spec_group_reply (lower m) @ related_text m ks"
  by (simp add: fallback_reply_def spec_group_reply_def Let_def)

text \<open>
  Claim C8. The fallback responder is a function of the message and the store with no
  failing branch: the source divides only by a token count it has found non-zero, and
  reads records only through \<^verbatim>\<open>get\<close> and \<^verbatim>\<open>str\<close>. Its reply is the text of the first
  keyword group that the lowercased message meets (liveness with 500, then a probe word,
  then an OpenStack service name, then the generic pod text), followed by the
  related-topics suffix. The suffix lists at most three trimmed questions: those of the
  records with a non-empty question, a non-empty answer and a score above zero, the
  score being the share of the question's tokens that are tokens of the message, sorted
  by falling score, records of equal score in store order. There is no suffix when no
  record of the store qualifies, in particular on the empty store.
\<close>

theorem fallback_reply_total:
  "fallback_reply m ks =
     spec_group_reply (lower m) @
     (if related_topics m ks 3 = [] then []
      else ''\<newline>Related topics you can ask: '' @ join '', '' (related_topics m ks 3))
   \<and> related_topics m ks 3
       = map snd (take 3 (sort_reverse (scored_loop (tokens (lower m)) ks)))
   \<and> scored_loop (tokens (lower m)) ks
       = map (\<lambda>item. (spec_score (tokens (lower m)) item, strip (question_of item)))
           (filter (spec_listed (tokens (lower m))) ks)
   \<and> sorted_wrt (\<lambda>a b. fst b \<le> fst a) (sort_reverse scored)
   \<and> filter (\<lambda>x. fst x = s) (sort_reverse scored) = filter (\<lambda>x. fst x = s) scored
   \<and> set (sort_reverse scored) = set scored
   \<and> length (sort_reverse scored) = length scored
   \<and> length (related_topics m ks 3) \<le> 3
   \<and> ((\<forall>item\<in>set ks. \<not> spec_listed (tokens (lower m)) item)
        \<longrightarrow> fallback_reply m ks = spec_group_reply (lower m))
   \<and> fallback_reply m [] = spec_group_reply (lower m)"
proof -
  have none: "(\<forall>item\<in>set ks. \<not> spec_listed (tokens (lower m)) item)
      \<longrightarrow> related_topics m ks 3 = []"
    by (simp add: related_topics_def scored_loop_spec sort_reverse_Nil Let_def)
  have empty: "related_topics m [] 3 = []"
    by (simp add: related_topics_def sort_reverse_Nil)
  have reply: "\<And>ks. fallback_reply m ks =
     spec_group_reply (lower m) @
     (if related_topics m ks 3 = [] then []
      else ''\<newline>Related topics you can ask: '' @ join '', '' (related_topics m ks 3))"
    by (simp add: fallback_reply_groups related_text_def Let_def)
  have topics: "related_topics m ks 3
       = map snd (take 3 (sort_reverse (scored_loop (tokens (lower m)) ks)))"
    by (simp add: related_topics_def Let_def)
  have len: "length (related_topics m ks 3) \<le> 3"
    by (simp add: topics)
  from none have none': "(\<forall>item\<in>set ks. \<not> spec_listed (tokens (lower m)) item)
        \<longrightarrow> fallback_reply m ks = spec_group_reply (lower m)"
    by (simp add: reply)
  have empty': "fallback_reply m [] = spec_group_reply (lower m)"
    by (simp add: reply empty)
  show ?thesis
    using reply [of ks] topics scored_loop_spec [of "tokens (lower m)" ks]
      sort_reverse_sorted [of scored] sort_reverse_stable [of s scored]
      sort_reverse_set [of scored] sort_reverse_length [of scored] len none' empty'
    by blast
qed

theorem fallback_reply_total_witness:
  "fallback_reply ''Pod crash loop, liveness probe''
     [[(''q'', JStr ''zzz''), (''a'', JStr ''x'')],
      [(''q'', JStr ''pod loop other thing''), (''a'', JStr ''x'')],
      [(''q'', JStr ''Pod crash''), (''a'', JStr ''x'')],
      [(''question'', JStr ''loop''), (''answer'', JStr [])],
      [(''question'', JStr ''crash''), (''a'', JStr ''x'')],
      [(''question'', JStr '' Loop ''), (''a'', JStr ''x'')]]
   = probe_reply @ ''\<newline>Related topics you can ask: Pod crash, crash, Loop''
   \<and> fallback_reply ''nova down'' [[(''q'', JStr ''zzz''), (''a'', JStr ''x'')]]
       = openstack_reply"
proof -
  let ?m = "''Pod crash loop, liveness probe''"
  let ?ks = "[[(''q'', JStr ''zzz''), (''a'', JStr ''x'')],
      [(''q'', JStr ''pod loop other thing''), (''a'', JStr ''x'')],
      [(''q'', JStr ''Pod crash''), (''a'', JStr ''x'')],
      [(''question'', JStr ''loop''), (''answer'', JStr [])],
      [(''question'', JStr ''crash''), (''a'', JStr ''x'')],
      [(''question'', JStr '' Loop ''), (''a'', JStr ''x'')]]"
  have g: "spec_group_reply (lower ?m) = probe_reply"
    by code_simp
  have r: "related_topics ?m ?ks 3 = [''Pod crash'', ''crash'', ''Loop'']"
    by code_simp
  have j: "join '', '' [''Pod crash'', ''crash'', ''Loop''] = ''Pod crash, crash, Loop''"
    by simp
  have first: "fallback_reply ?m ?ks
      = probe_reply @ ''\<newline>Related topics you can ask: Pod crash, crash, Loop''"
    using fallback_reply_total [of ?m ?ks, THEN conjunct1] g r j by simp
  have g2: "spec_group_reply (lower ''nova down'') = openstack_reply"
    by code_simp
  have n: "\<not> spec_listed (tokens (lower ''nova down'')) [(''q'', JStr ''zzz''), (''a'', JStr ''x'')]"
    by code_simp
  have second: "fallback_reply ''nova down'' [[(''q'', JStr ''zzz''), (''a'', JStr ''x'')]]
       = openstack_reply"
    using fallback_reply_total [of "''nova down''" "[[(''q'', JStr ''zzz''), (''a'', JStr ''x'')]]",
        THEN conjunct2, THEN conjunct2, THEN conjunct2, THEN conjunct2, THEN conjunct2,
        THEN conjunct2, THEN conjunct2, THEN conjunct2, THEN conjunct1]
      g2 n by simp
  from first second show ?thesis by simp
qed

lemma group_replies_differ:
  "openstack_reply @ x \<noteq> liveness_500_reply @ y"
  "openstack_reply @ x \<noteq> probe_reply @ y"
  "openstack_reply @ x \<noteq> generic_reply @ y"
  by (simp_all add: openstack_reply_def liveness_500_reply_def probe_reply_def generic_reply_def)

lemma keyword_incident:
  "k \<in> incident_keywords \<Longrightarrow> k \<in> tokens (lower m) \<Longrightarrow> is_incident_like m"
  by (auto simp: is_incident_like_def)

text \<open>
  Claim C10. The fallback reply is the OpenStack text (followed by the related-topics
  suffix) exactly when the lowercased message contains one of \<^verbatim>\<open>openstack\<close>, \<^verbatim>\<open>nova\<close>,
  \<^verbatim>\<open>neutron\<close> and \<^verbatim>\<open>cinder\<close> and neither earlier group applies. A message with none of
  the four names and no probe word gets the generic pod text, also when \<^verbatim>\<open>glance\<close> or
  \<^verbatim>\<open>keystone\<close> is one of its tokens, which makes it incident-like for the tracker.
\<close>

theorem fallback_openstack_branch:
  "(fallback_reply m ks = openstack_reply @ related_text m ks
      \<longleftrightarrow> \<not> (in_str ''liveness'' (lower m) \<and> in_str ''500'' (lower m))
          \<and> \<not> (in_str ''readiness'' (lower m) \<or> in_str ''liveness'' (lower m)
                \<or> in_str ''probe'' (lower m))
          \<and> (in_str ''openstack'' (lower m) \<or> in_str ''nova'' (lower m)
               \<or> in_str ''neutron'' (lower m) \<or> in_str ''cinder'' (lower m)))
   \<and> (\<not> (in_str ''readiness'' (lower m) \<or> in_str ''liveness'' (lower m)
           \<or> in_str ''probe'' (lower m))
        \<and> \<not> (in_str ''openstack'' (lower m) \<or> in_str ''nova'' (lower m)
               \<or> in_str ''neutron'' (lower m) \<or> in_str ''cinder'' (lower m))
        \<longrightarrow> fallback_reply m ks = generic_reply @ related_text m ks)
   \<and> (''glance'' \<in> tokens (lower m) \<or> ''keystone'' \<in> tokens (lower m)
        \<longrightarrow> is_incident_like m)"
proof -
  have inc: "''glance'' \<in> tokens (lower m) \<or> ''keystone'' \<in> tokens (lower m)
        \<longrightarrow> is_incident_like m"
    using keyword_incident [of "''glance''" m] keyword_incident [of "''keystone''" m]
    by (auto simp: incident_keywords_def)
  show ?thesis
    using inc group_replies_differ
    by (auto simp: fallback_reply_def Let_def)
qed

theorem fallback_openstack_branch_witness:
  "fallback_reply ''Glance upload fails'' [] = generic_reply
   \<and> is_incident_like ''Glance upload fails''
   \<and> fallback_reply ''Cinder upload fails'' [] = openstack_reply"
proof -
  let ?g = "''Glance upload fails''"
  let ?c = "''Cinder upload fails''"
  have a: "\<not> (in_str ''readiness'' (lower ?g) \<or> in_str ''liveness'' (lower ?g)
           \<or> in_str ''probe'' (lower ?g))"
    by code_simp
  have b: "\<not> (in_str ''openstack'' (lower ?g) \<or> in_str ''nova'' (lower ?g)
               \<or> in_str ''neutron'' (lower ?g) \<or> in_str ''cinder'' (lower ?g))"
    by code_simp
  have c: "''glance'' \<in> tokens (lower ?g)"
    by code_simp
  have d: "\<not> (in_str ''liveness'' (lower ?c) \<and> in_str ''500'' (lower ?c))"
    by code_simp
  have e: "\<not> (in_str ''readiness'' (lower ?c) \<or> in_str ''liveness'' (lower ?c)
           \<or> in_str ''probe'' (lower ?c))"
    by code_simp
  have f: "in_str ''cinder'' (lower ?c)"
    by code_simp
  have r: "related_text ?g [] = []" "related_text ?c [] = []"
    by code_simp+
  from fallback_openstack_branch [of ?g "[]"] a b c r(1)
  have "fallback_reply ?g [] = generic_reply \<and> is_incident_like ?g"
    by simp
  moreover from fallback_openstack_branch [of ?c "[]"] d e f r(2)
  have "fallback_reply ?c [] = openstack_reply"
    by simp
  ultimately show ?thesis by simp
qed

end
